theory Spec2Isabelle
  imports Main "HOL-Library.Word" "HOL-Library.AList"
begin

section \<open>JavaScript values\<close>

text \<open>
  The converter of \<^verbatim>\<open>generate-schemas.js\<close> works on plain JavaScript data: the
  property definitions of a node description go in, JSON Schema objects come out.
  A string is its sequence of UTF-16 code units. A number is an integer of the range
  \<open>- 2 ^ 53 \<dots> 2 ^ 53 - 1\<close>, a 54-bit word \<open>w\<close> read as \<open>sint w\<close>: each of these is a number
  of JavaScript, is false only when it is \<open>0\<close>, and prints in plain decimal (the
  converter only tests numbers for truth and prints them; fractions, larger numbers,
  NaN and the infinities are not represented). An object is the list of its own
  properties in insertion order; a property whose value is \<^verbatim>\<open>undefined\<close> is present with
  value \<open>JUndef\<close>. JavaScript enumerates keys that are array indices before the others; the
  statements below read objects by key, so they do not depend on where such a key stands
  in the list. No value is a function: an own property \<^verbatim>\<open>toString\<close> of an object is
  therefore never callable. Symbols and objects with a prototype of their own are not
  represented. The call stack is taken to be deep enough for the nesting of the input:
  the \<^verbatim>\<open>RangeError\<close> of an exhausted stack is not modelled.
\<close>

type_synonym jsstring = "16 word list"

type_synonym jsint = "54 word"

datatype jsval =
    JUndef
  | JNull
  | JBool bool
  | JNum jsint
  | JStr jsstring
  | JArr "jsval list"
  | JObj "(jsstring \<times> jsval) list"

type_synonym props = "(jsstring \<times> jsval) list"

datatype error = TypeError

text \<open>A string literal of the source, as code units.\<close>

definition js :: "string \<Rightarrow> jsstring" where
  "js s = map of_char s"

text \<open>\<^verbatim>\<open>if (v)\<close>, \<^verbatim>\<open>!v\<close>, \<^verbatim>\<open>a || b\<close>, \<^verbatim>\<open>Boolean(v)\<close>: every object and array is true.\<close>

fun truthy :: "jsval \<Rightarrow> bool" where
  "truthy JUndef = False"
| "truthy JNull = False"
| "truthy (JBool b) = b"
| "truthy (JNum n) = (n \<noteq> 0)"
| "truthy (JStr s) = (s \<noteq> [])"
| "truthy (JArr xs) = True"
| "truthy (JObj kvs) = True"

definition js_or :: "jsval \<Rightarrow> jsval \<Rightarrow> jsval" where
  "js_or a b = (if truthy a then a else b)"

text \<open>
  The read \<^verbatim>\<open>v?.k\<close>. On every value other than \<^verbatim>\<open>undefined\<close> and \<^verbatim>\<open>null\<close> it is
  the read \<^verbatim>\<open>v.k\<close>: none of the names the program reads is a property of a string,
  number, boolean or array (\<^verbatim>\<open>values\<close> of an array is a method, which the program
  only hands to \<^verbatim>\<open>Array.isArray\<close>, as it does \<^verbatim>\<open>undefined\<close>).
\<close>

fun js_get :: "jsval \<Rightarrow> jsstring \<Rightarrow> jsval" where
  "js_get (JObj kvs) k = (case map_of kvs k of Some v \<Rightarrow> v | None \<Rightarrow> JUndef)"
| "js_get v k = JUndef"

text \<open>The read \<^verbatim>\<open>v.k\<close> with no guard before it: it throws on \<^verbatim>\<open>undefined\<close> and \<^verbatim>\<open>null\<close>.\<close>

definition js_member :: "jsval \<Rightarrow> jsstring \<Rightarrow> error + jsval" where
  "js_member v k = (if v = JUndef \<or> v = JNull then Inl TypeError else Inr (js_get v k))"

text \<open>\<^verbatim>\<open>k in v\<close>: a TypeError unless \<open>v\<close> is an object; an array has no named key the program asks for.\<close>

fun js_in :: "jsstring \<Rightarrow> jsval \<Rightarrow> error + bool" where
  "js_in k (JObj kvs) = Inr (map_of kvs k \<noteq> None)"
| "js_in k (JArr xs) = Inr False"
| "js_in k v = Inl TypeError"

text \<open>
  The assignment \<^verbatim>\<open>o[k] = v\<close> on an object created by a literal. The key
  \<^verbatim>\<open>__proto__\<close> is the accessor of \<^verbatim>\<open>Object.prototype\<close>: assigning to it changes the
  prototype (or nothing) and creates no own property.
\<close>

definition js_set :: "props \<Rightarrow> jsstring \<Rightarrow> jsval \<Rightarrow> props" where
  "js_set s k v = (if k = js ''__proto__'' then s else AList.update k v s)"

fun is_array :: "jsval \<Rightarrow> bool" where
  "is_array (JArr xs) = True"
| "is_array v = False"

subsection \<open>Loops and array methods whose callback may throw\<close>

text \<open>\<^verbatim>\<open>for (const x of xs) body\<close>, with the state the body updates; a throw ends the loop.\<close>

fun for_of :: "('a \<Rightarrow> 's \<Rightarrow> error + 's) \<Rightarrow> 'a list \<Rightarrow> 's \<Rightarrow> error + 's" where
  "for_of f [] s = Inr s"
| "for_of f (x # xs) s = (case f x s of Inl e \<Rightarrow> Inl e | Inr s' \<Rightarrow> for_of f xs s')"

fun js_filter :: "('a \<Rightarrow> error + bool) \<Rightarrow> 'a list \<Rightarrow> error + 'a list" where
  "js_filter p [] = Inr []"
| "js_filter p (x # xs) =
     (case p x of Inl e \<Rightarrow> Inl e
      | Inr b \<Rightarrow> (case js_filter p xs of Inl e \<Rightarrow> Inl e
                  | Inr ys \<Rightarrow> Inr (if b then x # ys else ys)))"

fun js_map :: "('a \<Rightarrow> error + 'b) \<Rightarrow> 'a list \<Rightarrow> error + 'b list" where
  "js_map f [] = Inr []"
| "js_map f (x # xs) =
     (case f x of Inl e \<Rightarrow> Inl e
      | Inr y \<Rightarrow> (case js_map f xs of Inl e \<Rightarrow> Inl e | Inr ys \<Rightarrow> Inr (y # ys)))"

lemma for_of_cong [fundef_cong]:
  "xs = ys \<Longrightarrow> s = t \<Longrightarrow> (\<And>x a. x \<in> set ys \<Longrightarrow> f x a = g x a) \<Longrightarrow> for_of f xs s = for_of g ys t"
proof (induction ys arbitrary: xs s t)
  case Nil
  then show ?case by simp
next
  case (Cons y ys)
  have "for_of f ys a = for_of g ys a" for a
    by (rule Cons.IH) (simp_all add: Cons.prems)
  then show ?case
    using Cons.prems by (simp split: sum.splits)
qed

lemma js_map_cong [fundef_cong]:
  "xs = ys \<Longrightarrow> (\<And>x. x \<in> set ys \<Longrightarrow> f x = g x) \<Longrightarrow> js_map f xs = js_map g ys"
proof (induction ys arbitrary: xs)
  case Nil
  then show ?case by simp
next
  case (Cons y ys)
  have "js_map f ys = js_map g ys"
    by (rule Cons.IH) (simp_all add: Cons.prems)
  then show ?case
    using Cons.prems by (simp split: sum.splits)
qed

subsection \<open>\<^verbatim>\<open>String(v)\<close> and the conversion of a property key\<close>

text \<open>
  \<^verbatim>\<open>String(v)\<close>, and the conversion of \<open>v\<close> to a key in \<^verbatim>\<open>o[v] = x\<close>. An object is
  converted through its \<^verbatim>\<open>toString\<close>: the one of \<^verbatim>\<open>Object.prototype\<close> gives
  \<^verbatim>\<open>[object Object]\<close>; an own property \<^verbatim>\<open>toString\<close> is not callable, \<^verbatim>\<open>valueOf\<close> then
  yields no primitive either, and the conversion throws a TypeError. An array joins the
  conversions of its elements with commas, \<^verbatim>\<open>undefined\<close> and \<^verbatim>\<open>null\<close> as empty strings.
\<close>

text \<open>The decimal digits of an integer, as code units (\<open>0x30\<close> is the digit 0, \<open>0x2D\<close> the minus sign).\<close>

fun digits :: "nat \<Rightarrow> jsstring" where
  "digits n = (if n < 10 then [of_nat (48 + n)] else digits (n div 10) @ [of_nat (48 + n mod 10)])"

definition show_int :: "int \<Rightarrow> jsstring" where
  "show_int i = (if i < 0 then 0x2D # digits (nat (- i)) else digits (nat i))"

fun join_comma :: "jsstring list \<Rightarrow> jsstring" where
  "join_comma [] = []"
| "join_comma [s] = s"
| "join_comma (s # t # ts) = s @ js '','' @ join_comma (t # ts)"

fun js_String :: "jsval \<Rightarrow> error + jsstring" where
  "js_String JUndef = Inr (js ''undefined'')"
| "js_String JNull = Inr (js ''null'')"
| "js_String (JBool b) = Inr (if b then js ''true'' else js ''false'')"
| "js_String (JNum n) = Inr (show_int (sint n))"
| "js_String (JStr s) = Inr s"
| "js_String (JArr xs) =
     (case js_map (\<lambda>x. if x = JUndef \<or> x = JNull then Inr [] else js_String x) xs of
        Inl e \<Rightarrow> Inl e
      | Inr ss \<Rightarrow> Inr (join_comma ss))"
| "js_String (JObj kvs) =
     (if map_of kvs (js ''toString'') \<noteq> None then Inl TypeError else Inr (js ''[object Object]''))"

text \<open>The assignment \<^verbatim>\<open>o[name] = v\<close>: the key is converted first.\<close>

definition js_set_at :: "props \<Rightarrow> jsval \<Rightarrow> jsval \<Rightarrow> error + props" where
  "js_set_at s name v =
     (case js_String name of Inl e \<Rightarrow> Inl e | Inr k \<Rightarrow> Inr (js_set s k v))"

lemma of_char16_inj: "(of_char a :: 16 word) = of_char b \<Longrightarrow> a = b"
proof -
  assume h: "(of_char a :: 16 word) = of_char b"
  have u: "unat (of_char c :: 16 word) = of_char c" for c :: char
  proof -
    have "(of_char c :: nat) < 2 ^ 16"
      by (rule less_trans[of _ 256]) simp_all
    then have "unat (of_nat (of_char c) :: 16 word) = of_char c"
      by (simp add: unat_of_nat)
    then show ?thesis by (simp only: of_nat_of_char)
  qed
  from h have "unat (of_char a :: 16 word) = unat (of_char b :: 16 word)" by simp
  then show "a = b" by (simp only: u of_char_eq_iff)
qed

lemma js_eq_iff [simp]: "js a = js b \<longleftrightarrow> a = b"
  unfolding js_def by (auto simp: list_eq_iff_nth_eq dest!: of_char16_inj)

lemma js_Nil [simp]: "js s = [] \<longleftrightarrow> s = []" "[] = js s \<longleftrightarrow> s = []"
  by (auto simp: js_def)


section \<open>The Property Converter\<close>

abbreviation jstr :: "string \<Rightarrow> jsval" where
  "jstr x \<equiv> JStr (js x)"

text \<open>Lines 14 to 19 of \<^verbatim>\<open>propToSchema\<close>: the fields every fragment starts with.\<close>

definition common_fields :: "jsval \<Rightarrow> props" where
  "common_fields prop =
     (let s = [];
          s = (if truthy (js_get prop (js ''displayName''))
               then js_set s (js ''x-title'') (js_get prop (js ''displayName'')) else s);
          s = (if truthy (js_get prop (js ''description''))
               then js_set s (js ''description'') (js_get prop (js ''description'')) else s);
          s = (if js_get prop (js ''default'') \<noteq> JUndef
               then js_set s (js ''default'') (js_get prop (js ''default'')) else s);
          s = (if truthy (js_get prop (js ''displayOptions''))
               then js_set s (js ''x-displayOptions'') (js_get prop (js ''displayOptions'')) else s);
          s = (if truthy (js_get prop (js ''required''))
               then js_set s (js ''x-required'') (JBool True) else s)
      in s)"

text \<open>The arms of the \<^verbatim>\<open>switch\<close> that do not recurse, each from the fragment \<open>s\<close> built so far.\<close>

definition case_string :: "jsval \<Rightarrow> props \<Rightarrow> props" where
  "case_string prop s =
     (let topts = js_get prop (js ''typeOptions'');
          s = js_set s (js ''type'') (jstr ''string'');
          s = (if truthy (js_get topts (js ''password''))
               then js_set s (js ''format'') (jstr ''password'') else s);
          s = (if truthy (js_get topts (js ''rows''))
               then js_set s (js ''x-rows'') (js_get topts (js ''rows'')) else s);
          s = (if truthy (js_get topts (js ''editor''))
               then js_set s (js ''x-editor'') (js_get topts (js ''editor'')) else s)
      in s)"

definition case_number :: "jsval \<Rightarrow> props \<Rightarrow> props" where
  "case_number prop s =
     (let topts = js_get prop (js ''typeOptions'');
          s = js_set s (js ''type'') (jstr ''number'');
          s = (if js_get topts (js ''minValue'') \<noteq> JUndef
               then js_set s (js ''minimum'') (js_get topts (js ''minValue'')) else s);
          s = (if js_get topts (js ''maxValue'') \<noteq> JUndef
               then js_set s (js ''maximum'') (js_get topts (js ''maxValue'')) else s);
          s = (if js_get topts (js ''numberPrecision'') \<noteq> JUndef
               then js_set s (js ''x-precision'') (js_get topts (js ''numberPrecision'')) else s);
          s = (if js_get topts (js ''numberStepSize'') \<noteq> JUndef
               then js_set s (js ''x-stepSize'') (js_get topts (js ''numberStepSize'')) else s)
      in s)"

text \<open>The filter callbacks of lines 42 and 52, and the name callback of lines 44 and 54.\<close>

definition options_entry :: "jsval \<Rightarrow> error + bool" where
  "options_entry opt =
     (if \<not> truthy opt then Inr False
      else case js_in (js ''value'') opt of
             Inl e \<Rightarrow> Inl e
           | Inr b \<Rightarrow> Inr (b \<and> js_get opt (js ''value'') \<noteq> JUndef))"

definition multi_entry :: "jsval \<Rightarrow> error + bool" where
  "multi_entry opt = (if \<not> truthy opt then Inr False else js_in (js ''value'') opt)"

definition enum_name :: "jsval \<Rightarrow> error + jsval" where
  "enum_name opt =
     (if truthy (js_get opt (js ''name'')) then Inr (js_get opt (js ''name''))
      else case js_String (js_get opt (js ''value'')) of
             Inl e \<Rightarrow> Inl e
           | Inr s \<Rightarrow> Inr (JStr s))"

definition case_options :: "jsval \<Rightarrow> props \<Rightarrow> error + props" where
  "case_options prop s =
     (let s = js_set s (js ''type'') (jstr ''string'') in
      case js_get prop (js ''options'') of
        JArr opts \<Rightarrow>
          (case js_filter options_entry opts of
             Inl e \<Rightarrow> Inl e
           | Inr validOptions \<Rightarrow>
               (let s = js_set s (js ''enum'') (JArr (map (\<lambda>opt. js_get opt (js ''value'')) validOptions))
                in case js_map enum_name validOptions of
                     Inl e \<Rightarrow> Inl e
                   | Inr names \<Rightarrow>
                       (let s = js_set s (js ''x-enumNames'') (JArr names);
                            descs = map (\<lambda>opt. js_or (js_get opt (js ''description'')) (jstr []))
                                      validOptions;
                            s = (if list_ex truthy descs
                                 then js_set s (js ''x-enumDescriptions'') (JArr descs) else s)
                        in Inr s)))
      | _ \<Rightarrow> Inr s)"

definition case_multiOptions :: "jsval \<Rightarrow> props \<Rightarrow> error + props" where
  "case_multiOptions prop s =
     (let s = js_set s (js ''type'') (jstr ''array'') in
      case js_get prop (js ''options'') of
        JArr opts \<Rightarrow>
          (case js_filter multi_entry opts of
             Inl e \<Rightarrow> Inl e
           | Inr validOptions \<Rightarrow>
               (let s = js_set s (js ''items'')
                          (JObj [(js ''type'', jstr ''string''),
                                 (js ''enum'', JArr (map (\<lambda>opt. js_get opt (js ''value'')) validOptions))])
                in case js_map enum_name validOptions of
                     Inl e \<Rightarrow> Inl e
                   | Inr names \<Rightarrow> Inr (js_set s (js ''x-enumNames'') (JArr names))))
      | _ \<Rightarrow> Inr (js_set s (js ''items'') (JObj [(js ''type'', jstr ''string'')])))"

definition case_json :: "props \<Rightarrow> props" where
  "case_json s =
     js_set s (js ''oneOf'')
       (JArr [JObj [(js ''type'', jstr ''string''), (js ''description'', jstr ''JSON string'')],
              JObj [(js ''type'', jstr ''object'')],
              JObj [(js ''type'', jstr ''array'')]])"

definition case_dateTime :: "props \<Rightarrow> props" where
  "case_dateTime s = js_set (js_set s (js ''type'') (jstr ''string'')) (js ''format'') (jstr ''date-time'')"

definition case_color :: "props \<Rightarrow> props" where
  "case_color s =
     (let s = js_set s (js ''type'') (jstr ''string'');
          s = js_set s (js ''pattern'') (jstr ''^#[0-9a-fA-F]{6}([0-9a-fA-F]{2})?$'');
          s = js_set s (js ''x-format'') (jstr ''color'')
      in s)"

definition mode_record :: "jsval \<Rightarrow> error + jsval" where
  "mode_record m =
     (case js_member m (js ''name'') of
        Inl e \<Rightarrow> Inl e
      | Inr n \<Rightarrow> Inr (JObj [(js ''name'', n),
                             (js ''displayName'', js_get m (js ''displayName'')),
                             (js ''type'', js_get m (js ''type''))]))"

definition case_resourceLocator :: "jsval \<Rightarrow> props \<Rightarrow> error + props" where
  "case_resourceLocator prop s =
     (let s = js_set s (js ''type'') (jstr ''object'') in
      case (case js_get prop (js ''modes'') of
              JArr ms \<Rightarrow>
                (case js_map (\<lambda>m. js_member m (js ''name'')) ms of
                   Inl e \<Rightarrow> Inl e
                 | Inr names \<Rightarrow> Inr (filter truthy names))
            | _ \<Rightarrow> Inr [jstr ''id'', jstr ''url'', jstr ''list'']) of
        Inl e \<Rightarrow> Inl e
      | Inr modeValues \<Rightarrow>
          (let s = js_set s (js ''properties'')
                     (JObj [(js ''__rl'', JObj [(js ''type'', jstr ''boolean''), (js ''const'', JBool True)]),
                            (js ''mode'', JObj [(js ''type'', jstr ''string''), (js ''enum'', JArr modeValues)]),
                            (js ''value'', JObj [(js ''type'', jstr ''string'')])]);
               s = js_set s (js ''required'') (JArr [jstr ''mode'', jstr ''value''])
           in case js_get prop (js ''modes'') of
                JArr ms \<Rightarrow>
                  (case js_map mode_record ms of
                     Inl e \<Rightarrow> Inl e
                   | Inr recs \<Rightarrow> Inr (js_set s (js ''x-modes'') (JArr recs)))
              | _ \<Rightarrow> Inr s))"

definition case_filter :: "props \<Rightarrow> props" where
  "case_filter s =
     (let s = js_set s (js ''type'') (jstr ''object'') in
      js_set s (js ''properties'')
        (JObj [(js ''conditions'',
                JObj [(js ''type'', jstr ''array''),
                      (js ''items'',
                       JObj [(js ''type'', jstr ''object''),
                             (js ''properties'',
                              JObj [(js ''leftValue'', JObj [(js ''type'', jstr ''string'')]),
                                    (js ''rightValue'', JObj []),
                                    (js ''operator'', JObj [(js ''type'', jstr ''object'')])])])]),
               (js ''combinator'',
                JObj [(js ''type'', jstr ''string''),
                      (js ''enum'', JArr [jstr ''and'', jstr ''or'']),
                      (js ''default'', jstr ''and'')]),
               (js ''options'',
                JObj [(js ''type'', jstr ''object''),
                      (js ''properties'',
                       JObj [(js ''caseSensitive'', JObj [(js ''type'', jstr ''boolean'')]),
                             (js ''leftValue'', JObj [(js ''type'', jstr ''string'')]),
                             (js ''typeValidation'', JObj [(js ''type'', jstr ''string'')])])])]))"

definition case_credentialsSelect :: "props \<Rightarrow> props" where
  "case_credentialsSelect s =
     (let s = js_set s (js ''type'') (jstr ''object'') in
      js_set s (js ''properties'')
        (JObj [(js ''credsType'', JObj [(js ''type'', jstr ''string'')]),
               (js ''nodeCredentialType'', JObj [(js ''type'', jstr ''string'')])]))"

definition case_assignmentCollection :: "props \<Rightarrow> props" where
  "case_assignmentCollection s =
     (let s = js_set s (js ''type'') (jstr ''object'') in
      js_set s (js ''properties'')
        (JObj [(js ''assignments'',
                JObj [(js ''type'', jstr ''array''),
                      (js ''items'',
                       JObj [(js ''type'', jstr ''object''),
                             (js ''properties'',
                              JObj [(js ''id'', JObj [(js ''type'', jstr ''string'')]),
                                    (js ''name'', JObj [(js ''type'', jstr ''string'')]),
                                    (js ''value'', JObj []),
                                    (js ''type'',
                                     JObj [(js ''type'', jstr ''string''),
                                           (js ''enum'', JArr [jstr ''string'', jstr ''number'', jstr ''boolean'',
                                                                jstr ''object'', jstr ''array''])])]),
                             (js ''required'', JArr [jstr ''name''])])])]))"

definition case_default :: "jsval \<Rightarrow> props \<Rightarrow> props" where
  "case_default prop s =
     js_set (js_set s (js ''type'') (jstr ''string'')) (js ''x-n8n-type'') (js_get prop (js ''type''))"


text \<open>
  The bodies of the loops of lines 63 to 67 (and 82 to 86) and of lines 74 to 96, with the
  converter they call as a parameter.
\<close>
definition add_sub :: "(jsval \<Rightarrow> error + jsval) \<Rightarrow> jsval \<Rightarrow> props \<Rightarrow> error + props" where
  "add_sub conv sub ps =
     (if \<not> truthy sub \<or> \<not> truthy (js_get sub (js ''name'')) then Inr ps
      else case conv sub of
             Inl e \<Rightarrow> Inl e
           | Inr subS \<Rightarrow>
               if truthy subS then js_set_at ps (js_get sub (js ''name'')) subS else Inr ps)"

definition add_group :: "(jsval \<Rightarrow> error + jsval) \<Rightarrow> bool \<Rightarrow> jsval \<Rightarrow> props \<Rightarrow> error + props" where
  "add_group conv multi grp ps =
     (if \<not> truthy grp \<or> \<not> truthy (js_get grp (js ''name'')) then Inr ps
      else
        let g = [];
            g = (if truthy (js_get grp (js ''displayName''))
                 then js_set g (js ''x-title'') (js_get grp (js ''displayName'')) else g);
            g = (if truthy (js_get grp (js ''description''))
                 then js_set g (js ''description'') (js_get grp (js ''description'')) else g)
        in case (case js_get grp (js ''values'') of
                   JArr subs \<Rightarrow> for_of (add_sub conv) subs []
                 | _ \<Rightarrow> Inr []) of
             Inl e \<Rightarrow> Inl e
           | Inr itemProps \<Rightarrow>
               (let g = (if multi
                         then js_set (js_set g (js ''type'') (jstr ''array'')) (js ''items'')
                                (JObj [(js ''type'', jstr ''object''), (js ''properties'', JObj itemProps)])
                         else js_set (js_set g (js ''type'') (jstr ''object'')) (js ''properties'')
                                (JObj itemProps))
                in js_set_at ps (js_get grp (js ''name'')) (JObj g)))"

lemma add_sub_cong [fundef_cong]:
  "sub = sub' \<Longrightarrow> ps = ps' \<Longrightarrow> conv sub' = conv' sub' \<Longrightarrow> add_sub conv sub ps = add_sub conv' sub' ps'"
  by (simp add: add_sub_def)

lemma add_group_cong [fundef_cong]:
  assumes "multi = multi'" "grp = grp'" "ps = ps'"
    and "\<And>subs sub. js_get grp' (js ''values'') = JArr subs \<Longrightarrow> sub \<in> set subs \<Longrightarrow> conv sub = conv' sub"
  shows "add_group conv multi grp ps = add_group conv' multi' grp' ps'"
proof (cases "js_get grp' (js ''values'')")
  case (JArr subs)
  have "for_of (add_sub conv) subs [] = for_of (add_sub conv') subs []"
    by (rule for_of_cong) (simp_all add: add_sub_def assms(4)[OF JArr])
  then show ?thesis
    using assms(1-3) JArr by (simp add: add_group_def)
qed (simp_all add: add_group_def assms(1-3))

lemma size_elem: "x \<in> set xs \<Longrightarrow> size x < Suc (size_list size xs)"
  by (induction xs) auto

lemma size_map_of: "map_of kvs k = Some v \<Longrightarrow> size (v::jsval) < Suc (size_list (size_prod (\<lambda>x. 0) size) kvs)"
  by (induction kvs) (auto split: if_splits)

lemma size_js_get_elem: "js_get v k = JArr xs \<Longrightarrow> x \<in> set xs \<Longrightarrow> size x < size v"
proof (cases v)
  case (JObj kvs)
  assume a: "js_get v k = JArr xs" "x \<in> set xs"
  then have "map_of kvs k = Some (JArr xs)" using JObj by (simp split: option.splits)
  from size_map_of[OF this] size_elem[OF a(2)] show ?thesis using JObj by simp
qed simp_all

function propToSchema :: "jsval \<Rightarrow> error + jsval" where
  "propToSchema prop =
     (if \<not> truthy prop \<or> \<not> truthy (js_get prop (js ''name'')) \<or> js_get prop (js ''type'') = jstr ''notice''
      then Inr JNull
      else if js_get prop (js ''type'') = jstr ''string'' \<or> js_get prop (js ''type'') = jstr ''hidden''
      then Inr (JObj (case_string prop (common_fields prop)))
      else if js_get prop (js ''type'') = jstr ''number''
      then Inr (JObj (case_number prop (common_fields prop)))
      else if js_get prop (js ''type'') = jstr ''boolean''
      then Inr (JObj (js_set (common_fields prop) (js ''type'') (jstr ''boolean'')))
      else if js_get prop (js ''type'') = jstr ''options''
      then map_sum id JObj (case_options prop (common_fields prop))
      else if js_get prop (js ''type'') = jstr ''multiOptions''
      then map_sum id JObj (case_multiOptions prop (common_fields prop))
      else if js_get prop (js ''type'') = jstr ''collection''
      then (let s = js_set (common_fields prop) (js ''type'') (jstr ''object'') in
            case js_get prop (js ''options'') of
              JArr subs \<Rightarrow>
                (case for_of (add_sub propToSchema) subs [] of
                   Inl e \<Rightarrow> Inl e
                 | Inr ps \<Rightarrow> Inr (JObj (js_set s (js ''properties'') (JObj ps))))
            | _ \<Rightarrow> Inr (JObj s))
      else if js_get prop (js ''type'') = jstr ''fixedCollection''
      then (let s = js_set (common_fields prop) (js ''type'') (jstr ''object'');
                multi = (truthy (js_get prop (js ''typeOptions''))
                         \<and> truthy (js_get (js_get prop (js ''typeOptions'')) (js ''multipleValues'')))
            in case (case js_get prop (js ''options'') of
                       JArr grps \<Rightarrow> for_of (add_group propToSchema multi) grps []
                     | _ \<Rightarrow> Inr []) of
                 Inl e \<Rightarrow> Inl e
               | Inr ps \<Rightarrow> Inr (JObj (js_set s (js ''properties'') (JObj ps))))
      else if js_get prop (js ''type'') = jstr ''json''
      then Inr (JObj (case_json (common_fields prop)))
      else if js_get prop (js ''type'') = jstr ''dateTime''
      then Inr (JObj (case_dateTime (common_fields prop)))
      else if js_get prop (js ''type'') = jstr ''color''
      then Inr (JObj (case_color (common_fields prop)))
      else if js_get prop (js ''type'') = jstr ''resourceLocator''
      then map_sum id JObj (case_resourceLocator prop (common_fields prop))
      else if js_get prop (js ''type'') = jstr ''filter''
      then Inr (JObj (case_filter (common_fields prop)))
      else if js_get prop (js ''type'') = jstr ''credentialsSelect''
      then Inr (JObj (case_credentialsSelect (common_fields prop)))
      else if js_get prop (js ''type'') = jstr ''assignmentCollection''
      then Inr (JObj (case_assignmentCollection (common_fields prop)))
      else Inr (JObj (case_default prop (common_fields prop))))"
  by pat_completeness auto
termination
  apply (relation "measure size")
  subgoal by simp
  subgoal by (simp add: size_js_get_elem)
  subgoal by simp (meson less_trans size_js_get_elem)
  done


declare propToSchema.simps [simp del]

section \<open>The Descriptor Assembler\<close>

text \<open>The body of the loop of lines 211 to 217.\<close>

definition add_prop :: "jsval \<Rightarrow> props \<Rightarrow> error + props" where
  "add_prop prop ps =
     (if \<not> truthy prop \<or> \<not> truthy (js_get prop (js ''name'')) then Inr ps
      else case propToSchema prop of
             Inl e \<Rightarrow> Inl e
           | Inr propSchema \<Rightarrow>
               if propSchema \<noteq> JNull
               then js_set_at ps (js_get prop (js ''name'')) propSchema else Inr ps)"

text \<open>Lines 194 to 209 of \<^verbatim>\<open>descToSchema\<close>: the literal and the metadata copied when present.\<close>

definition schema_fields :: "jsval \<Rightarrow> jsval \<Rightarrow> props" where
  "schema_fields desc versionLabel =
     (let schema =
            [(js ''$schema'', jstr ''http://json-schema.org/draft-07/schema#''),
             (js ''title'', js_or (js_get desc (js ''displayName'')) (js_get desc (js ''name''))),
             (js ''description'', js_or (js_get desc (js ''description'')) (jstr [])),
             (js ''x-n8n-node-type'', js_get desc (js ''name'')),
             (js ''x-n8n-version'',
              if versionLabel \<noteq> JUndef then versionLabel
              else js_or (js_get desc (js ''version'')) (JNum 1)),
             (js ''x-n8n-group'',
              if is_array (js_get desc (js ''group'')) then js_get desc (js ''group'')
              else JArr (filter truthy [js_get desc (js ''group'')])),
             (js ''type'', jstr ''object''),
             (js ''properties'', JObj [])];
          schema = (if truthy (js_get desc (js ''subtitle''))
                    then js_set schema (js ''x-subtitle'') (js_get desc (js ''subtitle'')) else schema);
          schema = (if truthy (js_get desc (js ''icon''))
                    then js_set schema (js ''x-icon'') (js_get desc (js ''icon'')) else schema);
          schema = (if truthy (js_get desc (js ''inputs''))
                    then js_set schema (js ''x-inputs'') (js_get desc (js ''inputs'')) else schema);
          schema = (if truthy (js_get desc (js ''outputs''))
                    then js_set schema (js ''x-outputs'') (js_get desc (js ''outputs'')) else schema);
          schema = (if truthy (js_get desc (js ''credentials''))
                    then js_set schema (js ''x-credentials'') (js_get desc (js ''credentials'')) else schema);
          schema = (if truthy (js_get desc (js ''webhooks''))
                    then js_set schema (js ''x-webhooks'') (jstr ''true'') else schema)
      in schema)"

text \<open>
  \<^verbatim>\<open>descToSchema\<close>. Reading a field of an absent description throws. The loop runs over
  \<^verbatim>\<open>desc.properties || []\<close>: over an array in order; over a string character by
  character, where the body skips every character (a string has no \<^verbatim>\<open>name\<close>); any other
  true value is not iterable. The loop fills the object that the literal stored under
  \<^verbatim>\<open>properties\<close>.
\<close>

definition descToSchema :: "jsval \<Rightarrow> jsval \<Rightarrow> error + jsval" where
  "descToSchema desc versionLabel =
     (if desc = JUndef \<or> desc = JNull then Inl TypeError
      else
        let schema = schema_fields desc versionLabel
        in case (case js_or (js_get desc (js ''properties'')) (JArr []) of
                   JArr properties \<Rightarrow> for_of add_prop properties []
                 | JStr chars \<Rightarrow> Inr []
                 | _ \<Rightarrow> Inl TypeError) of
             Inl e \<Rightarrow> Inl e
           | Inr ps \<Rightarrow> Inr (JObj (js_set schema (js ''properties'') (JObj ps))))"

section \<open>The Name Sanitizer\<close>

text \<open>
  The character classes of the regular expressions of \<^verbatim>\<open>safeName\<close>, on code units:
  \<^verbatim>\<open>[<>:"/\\|?*\x00-\x1f]\<close>, \<^verbatim>\<open>\s\<close> (the white space and line terminators of
  ECMAScript, which are also what \<^verbatim>\<open>trim\<close> removes) and \<^verbatim>\<open>_\<close>.
\<close>

definition forbidden :: "16 word \<Rightarrow> bool" where
  "forbidden c = (c \<in> set [0x3C, 0x3E, 0x3A, 0x22, 0x2F, 0x5C, 0x7C, 0x3F, 0x2A] \<or> c \<le> 0x1F)"

definition whitespace :: "16 word \<Rightarrow> bool" where
  "whitespace c =
     (c \<in> set [0x09, 0x0A, 0x0B, 0x0C, 0x0D, 0x20, 0xA0, 0x1680, 0x2028, 0x2029, 0x202F, 0x205F,
                0x3000, 0xFEFF]
      \<or> (0x2000 \<le> c \<and> c \<le> 0x200A))"

definition underscore :: "16 word \<Rightarrow> bool" where
  "underscore c = (c = 0x5F)"

text \<open>
  \<^verbatim>\<open>.replace(/\s+/g, '_')\<close> and \<^verbatim>\<open>.replace(/_{2,}/g, '_')\<close>: every maximal run of
  characters of the class becomes one underscore (a single underscore is left as it is).
\<close>

function squeeze :: "(16 word \<Rightarrow> bool) \<Rightarrow> jsstring \<Rightarrow> jsstring" where
  "squeeze P [] = []"
| "squeeze P (c # cs) =
     (if P c then 0x5F # squeeze P (dropWhile P cs) else c # squeeze P cs)"
  by pat_completeness auto
termination
  by (relation "measure (\<lambda>(P, cs). length cs)") (auto simp: length_dropWhile_le less_Suc_eq_le)

text \<open>\<^verbatim>\<open>.replace(/^_+|_+$/g, '')\<close> and \<^verbatim>\<open>.trim()\<close>: the class is removed at both ends.\<close>

definition strip_ends :: "(16 word \<Rightarrow> bool) \<Rightarrow> jsstring \<Rightarrow> jsstring" where
  "strip_ends P s = rev (dropWhile P (rev (dropWhile P s)))"

text \<open>\<^verbatim>\<open>safeName\<close>: the conversion \<^verbatim>\<open>String(str || 'unknown')\<close> may throw; the rest cannot.\<close>

definition safeName :: "jsval \<Rightarrow> error + jsstring" where
  "safeName str =
     (case js_String (js_or str (jstr ''unknown'')) of
        Inl e \<Rightarrow> Inl e
      | Inr s \<Rightarrow>
          (let s = filter (\<lambda>c. \<not> forbidden c) s;
               s = squeeze whitespace s;
               s = squeeze underscore s;
               s = strip_ends underscore s;
               s = strip_ends whitespace s
           in Inr (if s = [] then js ''unknown'' else s)))"

subsection \<open>Fixed points of the sanitizer\<close>

text \<open>
  No character of the class stands next to another, and every character of the class is an
  underscore: the strings that \<open>squeeze P\<close> leaves as they are.
\<close>

fun tidy :: "(16 word \<Rightarrow> bool) \<Rightarrow> jsstring \<Rightarrow> bool" where
  "tidy P [] = True"
| "tidy P [c] = (\<not> P c \<or> c = 0x5F)"
| "tidy P (c # d # cs) = ((\<not> P c \<or> (c = 0x5F \<and> \<not> P d)) \<and> tidy P (d # cs))"

text \<open>What the sanitizer's steps leave: a fixed point of every step.\<close>

definition sanitized :: "jsstring \<Rightarrow> bool" where
  "sanitized s = (list_all (\<lambda>c. \<not> forbidden c \<and> \<not> whitespace c) s \<and> tidy underscore s
                  \<and> (s = [] \<or> (\<not> underscore (hd s) \<and> \<not> underscore (last s))))"

section \<open>Notions the properties are stated with\<close>

text \<open>The test of line 12: the definition is absent, has no name, or is a notice.\<close>

definition no_contribution :: "jsval \<Rightarrow> bool" where
  "no_contribution prop =
     (\<not> truthy prop \<or> \<not> truthy (js_get prop (js ''name'')) \<or> js_get prop (js ''type'') = jstr ''notice'')"

text \<open>The tags the converter has an arm for.\<close>

definition recognized_types :: "string list" where
  "recognized_types =
     [''string'', ''hidden'', ''number'', ''boolean'', ''options'', ''multiOptions'', ''collection'',
      ''fixedCollection'', ''json'', ''dateTime'', ''color'', ''resourceLocator'', ''filter'',
      ''credentialsSelect'', ''assignmentCollection'', ''notice'']"

text \<open>The primitive types of JSON Schema, and the disjunction of the \<^verbatim>\<open>json\<close> arm.\<close>

definition primitive_types :: "string list" where
  "primitive_types = [''array'', ''boolean'', ''integer'', ''null'', ''number'', ''object'', ''string'']"

definition one_of_json :: jsval where
  "one_of_json =
     JArr [JObj [(js ''type'', jstr ''string''), (js ''description'', jstr ''JSON string'')],
           JObj [(js ''type'', jstr ''object'')],
           JObj [(js ''type'', jstr ''array'')]]"

text \<open>A fragment under construction that has neither keyword yet, and one that has its type.\<close>

definition untyped :: "props \<Rightarrow> bool" where
  "untyped s = (map_of s (js ''type'') = None \<and> map_of s (js ''oneOf'') = None \<and> distinct (map fst s))"

definition typed :: "props \<Rightarrow> bool" where
  "typed s = (map_of s (js ''type'') \<in> set (map (Some \<circ> jstr) primitive_types)
              \<and> map_of s (js ''oneOf'') = None \<and> distinct (map fst s))"

text \<open>An entry the callbacks of lines 42 and 52 accept: not a true string, number or boolean.\<close>

fun entry_ok :: "jsval \<Rightarrow> bool" where
  "entry_ok (JObj kvs) = True"
| "entry_ok (JArr xs) = True"
| "entry_ok v = (\<not> truthy v)"

text \<open>A value whose fields can be read: neither \<^verbatim>\<open>undefined\<close> nor \<^verbatim>\<open>null\<close>.\<close>

fun present :: "jsval \<Rightarrow> bool" where
  "present JUndef = False"
| "present JNull = False"
| "present v = True"

text \<open>
  A value that \<^verbatim>\<open>String\<close> and the conversion of a key accept: not an object with an own
  \<^verbatim>\<open>toString\<close> property, nor an array that holds one.
\<close>

fun printable :: "jsval \<Rightarrow> bool" where
  "printable (JObj kvs) = (map_of kvs (js ''toString'') = None)"
| "printable (JArr xs) = list_all printable xs"
| "printable v = True"

text \<open>A group or sub-definition that is present and has a non-empty name.\<close>

definition named :: "jsval \<Rightarrow> bool" where
  "named v = (truthy v \<and> truthy (js_get v (js ''name'')))"

text \<open>
  An entry of \<^verbatim>\<open>options\<close> that the options and multiOptions arms handle: the filter accepts
  it, and it has a non-empty name or a value that \<^verbatim>\<open>String\<close> accepts (lines 44 and 54).
\<close>

definition option_ok :: "jsval \<Rightarrow> bool" where
  "option_ok opt =
     (entry_ok opt \<and> (truthy (js_get opt (js ''name'')) \<or> printable (js_get opt (js ''value''))))"

text \<open>
  Well-formed input of the converter: the entries of the \<^verbatim>\<open>options\<close> of an options or
  multiOptions definition are handled by the arm, the entries of the \<^verbatim>\<open>modes\<close> of a
  resourceLocator are present, the sub-definitions of a collection and of every named
  group of a fixedCollection are well formed, and each name that becomes a key (of a
  sub-definition that contributes, of a named group) is accepted by the conversion. A
  definition that contributes nothing is never looked into.
\<close>

function well_formed :: "jsval \<Rightarrow> bool" where
  "well_formed prop =
     (if no_contribution prop then True
      else if js_get prop (js ''type'') = jstr ''options'' \<or> js_get prop (js ''type'') = jstr ''multiOptions''
      then (case js_get prop (js ''options'') of JArr opts \<Rightarrow> list_all option_ok opts | _ \<Rightarrow> True)
      else if js_get prop (js ''type'') = jstr ''collection''
      then (case js_get prop (js ''options'') of
              JArr subs \<Rightarrow>
                list_all (\<lambda>sub. well_formed sub
                                \<and> (no_contribution sub \<or> printable (js_get sub (js ''name'')))) subs
            | _ \<Rightarrow> True)
      else if js_get prop (js ''type'') = jstr ''fixedCollection''
      then (case js_get prop (js ''options'') of
              JArr grps \<Rightarrow>
                list_all
                  (\<lambda>grp. if named grp
                         then printable (js_get grp (js ''name''))
                              \<and> (case js_get grp (js ''values'') of
                                    JArr subs \<Rightarrow>
                                      list_all (\<lambda>sub. well_formed sub
                                                      \<and> (no_contribution sub
                                                          \<or> printable (js_get sub (js ''name'')))) subs
                                  | _ \<Rightarrow> True)
                         else True) grps
            | _ \<Rightarrow> True)
      else if js_get prop (js ''type'') = jstr ''resourceLocator''
      then (case js_get prop (js ''modes'') of JArr ms \<Rightarrow> list_all present ms | _ \<Rightarrow> True)
      else True)"
  by pat_completeness auto
termination
  apply (relation "measure size")
  subgoal by simp
  subgoal by (simp add: size_js_get_elem)
  subgoal by simp (meson less_trans size_js_get_elem)
  done

declare well_formed.simps [simp del]

text \<open>An entry that declares a defined value: the key is present and its value is not \<^verbatim>\<open>undefined\<close>.\<close>

definition declares_value :: "jsval \<Rightarrow> bool" where
  "declares_value opt = (js_get opt (js ''value'') \<noteq> JUndef)"

text \<open>The scenario \<^verbatim>\<open>{name:"mode", type:"options", options:[{name:"Fast",value:"fast"},
  {name:"Slow",value:"slow",description:"x"}]}\<close>.\<close>

definition mode_definition :: jsval where
  "mode_definition =
     JObj [(js ''name'', jstr ''mode''), (js ''type'', jstr ''options''),
           (js ''options'',
            JArr [JObj [(js ''name'', jstr ''Fast''), (js ''value'', jstr ''fast'')],
                  JObj [(js ''name'', jstr ''Slow''), (js ''value'', jstr ''slow''),
                        (js ''description'', jstr ''x'')]])]"

text \<open>
  The names of the declared modes (a mode with no name, or an empty one, has none), the
  record kept of each mode, and the three properties of a locator.
\<close>

definition mode_names :: "jsval list \<Rightarrow> jsval list" where
  "mode_names ms = filter truthy (map (\<lambda>m. js_get m (js ''name'')) ms)"

definition mode_metadata :: "jsval \<Rightarrow> jsval" where
  "mode_metadata m =
     JObj [(js ''name'', js_get m (js ''name'')),
           (js ''displayName'', js_get m (js ''displayName'')),
           (js ''type'', js_get m (js ''type''))]"

definition locator_properties :: "jsval list \<Rightarrow> jsval" where
  "locator_properties names =
     JObj [(js ''__rl'', JObj [(js ''type'', jstr ''boolean''), (js ''const'', JBool True)]),
           (js ''mode'', JObj [(js ''type'', jstr ''string''), (js ''enum'', JArr names)]),
           (js ''value'', JObj [(js ''type'', jstr ''string'')])]"

text \<open>
  The definition \<open>prop\<close> contributes the fragment \<open>frag\<close> under the key \<open>k\<close>: it is named,
  the key is its name as a property key, and its conversion yields the fragment.
\<close>

definition contributes :: "jsval \<Rightarrow> jsstring \<Rightarrow> jsval \<Rightarrow> bool" where
  "contributes prop k frag =
     (named prop \<and> js_String (js_get prop (js ''name'')) = Inr k
      \<and> propToSchema prop = Inr frag \<and> frag \<noteq> JNull)"

section \<open>Facts about the converter\<close>

lemma map_of_js_set:
  "map_of (js_set s k v) = (if k = js ''__proto__'' then map_of s else (map_of s)(k \<mapsto> v))"
  by (simp add: js_set_def update_conv')

lemma distinct_js_set: "distinct (map fst s) \<Longrightarrow> distinct (map fst (js_set s k v))"
  by (simp add: js_set_def distinct_update)

lemma truthy_name_object: "truthy (js_get p k) \<Longrightarrow> truthy p"
  by (cases p) simp_all

lemma propToSchema_default:
  assumes "truthy (js_get p (js ''name''))"
    and "js_get p (js ''type'') \<notin> set (map jstr recognized_types)"
  shows "propToSchema p = Inr (JObj (case_default p (common_fields p)))"
  using assms truthy_name_object[OF assms(1)]
  by (simp add: propToSchema.simps[of p] recognized_types_def)

lemma untyped_common: "untyped (common_fields p)"
  by (simp add: untyped_def common_fields_def map_of_js_set distinct_js_set)

lemma typed_set_type:
  "untyped s \<Longrightarrow> t \<in> set primitive_types \<Longrightarrow> typed (js_set s (js ''type'') (jstr t))"
  by (auto simp: untyped_def typed_def map_of_js_set distinct_js_set)

lemma typed_js_set:
  "typed s \<Longrightarrow> k \<noteq> js ''type'' \<Longrightarrow> k \<noteq> js ''oneOf'' \<Longrightarrow> typed (js_set s k v)"
  by (auto simp: typed_def map_of_js_set distinct_js_set)

lemma prim_mem [simp]:
  "''string'' \<in> set primitive_types" "''number'' \<in> set primitive_types"
  "''boolean'' \<in> set primitive_types" "''object'' \<in> set primitive_types"
  "''array'' \<in> set primitive_types"
  by (simp_all add: primitive_types_def)

lemma typed_string: "untyped s \<Longrightarrow> typed (case_string p s)"
  by (simp add: case_string_def Let_def typed_set_type typed_js_set)

lemma typed_number: "untyped s \<Longrightarrow> typed (case_number p s)"
  by (simp add: case_number_def Let_def typed_set_type typed_js_set)

lemma typed_options: "untyped s \<Longrightarrow> case_options p s = Inr r \<Longrightarrow> typed r"
  by (auto simp: case_options_def Let_def typed_set_type typed_js_set split: jsval.splits sum.splits if_splits)

lemma typed_multiOptions: "untyped s \<Longrightarrow> case_multiOptions p s = Inr r \<Longrightarrow> typed r"
  by (auto simp: case_multiOptions_def Let_def typed_set_type typed_js_set split: jsval.splits sum.splits)

lemma typed_dateTime: "untyped s \<Longrightarrow> typed (case_dateTime s)"
  by (simp add: case_dateTime_def typed_set_type typed_js_set)

lemma typed_color: "untyped s \<Longrightarrow> typed (case_color s)"
  by (simp add: case_color_def Let_def typed_set_type typed_js_set)

lemma typed_resourceLocator: "untyped s \<Longrightarrow> case_resourceLocator p s = Inr r \<Longrightarrow> typed r"
  by (auto simp: case_resourceLocator_def Let_def typed_set_type typed_js_set split: jsval.splits sum.splits)

lemma typed_filter: "untyped s \<Longrightarrow> typed (case_filter s)"
  by (simp add: case_filter_def Let_def typed_set_type typed_js_set)

lemma typed_credentialsSelect: "untyped s \<Longrightarrow> typed (case_credentialsSelect s)"
  by (simp add: case_credentialsSelect_def Let_def typed_set_type typed_js_set)

lemma typed_assignmentCollection: "untyped s \<Longrightarrow> typed (case_assignmentCollection s)"
  by (simp add: case_assignmentCollection_def Let_def typed_set_type typed_js_set)

lemma typed_default: "untyped s \<Longrightarrow> typed (case_default p s)"
  by (simp add: case_default_def typed_set_type typed_js_set)

lemma json_keywords:
  "untyped s \<Longrightarrow> map_of (case_json s) (js ''type'') = None
     \<and> map_of (case_json s) (js ''oneOf'') = Some one_of_json \<and> distinct (map fst (case_json s))"
  by (simp add: untyped_def case_json_def one_of_json_def map_of_js_set distinct_js_set)

lemma map_sum_Inr: "map_sum id JObj r = Inr (JObj kvs) \<longleftrightarrow> r = Inr kvs"
  by (cases r) auto

lemma propToSchema_typed:
  assumes "propToSchema p = Inr (JObj kvs)" "js_get p (js ''type'') \<noteq> jstr ''json''"
  shows "typed kvs"
proof -
  note u = untyped_common[of p]
  note ts = typed_set_type[OF u]
  show ?thesis
    using assms
    by (auto simp: propToSchema.simps[of p] Let_def map_sum_Inr ts typed_js_set
        typed_string[OF u] typed_number[OF u] typed_dateTime[OF u] typed_color[OF u]
        typed_filter[OF u] typed_credentialsSelect[OF u] typed_assignmentCollection[OF u]
        typed_default[OF u]
        dest: typed_options[OF u] typed_multiOptions[OF u] typed_resourceLocator[OF u]
        split: if_splits jsval.splits sum.splits)
qed

lemma propToSchema_json:
  assumes "propToSchema p = Inr (JObj kvs)" "js_get p (js ''type'') = jstr ''json''"
  shows "kvs = case_json (common_fields p)"
  using assms by (simp add: propToSchema.simps[of p] split: if_splits)

lemma error_is_TypeError: "(e :: error) = TypeError"
  by (cases e) simp

lemma sub_induct [case_names step]:
  assumes "\<And>p. (\<And>subs sub. js_get p (js ''options'') = JArr subs \<Longrightarrow> sub \<in> set subs \<Longrightarrow> P sub)
             \<Longrightarrow> (\<And>grps grp subs sub. js_get p (js ''options'') = JArr grps \<Longrightarrow> grp \<in> set grps
                    \<Longrightarrow> js_get grp (js ''values'') = JArr subs \<Longrightarrow> sub \<in> set subs \<Longrightarrow> P sub)
             \<Longrightarrow> P p"
  shows "P p"
proof (induction "size p" arbitrary: p rule: less_induct)
  case less
  show ?case
  proof (rule assms)
    fix subs sub assume "js_get p (js ''options'') = JArr subs" "sub \<in> set subs"
    then show "P sub" by (intro less) (rule size_js_get_elem)
  next
    fix grps grp subs sub
    assume a: "js_get p (js ''options'') = JArr grps" "grp \<in> set grps"
      and b: "js_get grp (js ''values'') = JArr subs" "sub \<in> set subs"
    have "size sub < size grp" using b by (rule size_js_get_elem)
    also have "\<dots> < size p" using a by (rule size_js_get_elem)
    finally show "P sub" by (rule less)
  qed
qed

lemma js_filter_ok:
  "list_all (\<lambda>x. \<exists>b. f x = Inr b) xs \<Longrightarrow> js_filter f xs = Inr (filter (\<lambda>x. f x = Inr True) xs)"
  by (induction xs) auto

lemma js_filter_throws:
  "\<not> list_all (\<lambda>x. \<exists>b. f x = Inr b) xs \<Longrightarrow> js_filter f xs = Inl TypeError"
proof (induction xs)
  case Nil
  then show ?case by simp
next
  case (Cons x xs)
  then show ?case
    by (cases "f x"; cases "js_filter f xs") (auto simp: error_is_TypeError)
qed

lemma js_map_ok:
  "list_all (\<lambda>x. \<exists>b. f x = Inr b) xs \<Longrightarrow> js_map f xs = Inr (map (\<lambda>x. projr (f x)) xs)"
  by (induction xs) auto

lemma js_map_throws:
  "\<not> list_all (\<lambda>x. \<exists>b. f x = Inr b) xs \<Longrightarrow> js_map f xs = Inl TypeError"
proof (induction xs)
  case Nil
  then show ?case by simp
next
  case (Cons x xs)
  then show ?case
    by (cases "f x"; cases "js_map f xs") (auto simp: error_is_TypeError)
qed

lemma for_of_ok:
  "(\<And>x a. x \<in> set xs \<Longrightarrow> \<exists>b. f x a = Inr b) \<Longrightarrow> \<exists>b. for_of f xs a = Inr b"
proof (induction xs arbitrary: a)
  case Nil
  then show ?case by simp
next
  case (Cons x xs)
  obtain b where b: "f x a = Inr b" using Cons.prems[of x a] by auto
  have "\<exists>c. for_of f xs b = Inr c" by (rule Cons.IH) (simp add: Cons.prems)
  then show ?case using b by simp
qed

lemma js_String_printable: "printable v \<Longrightarrow> \<exists>s. js_String v = Inr s"
proof (induction v rule: js_String.induct)
  case (6 xs)
  let ?f = "\<lambda>x. if x = JUndef \<or> x = JNull then Inr [] else js_String x"
  have "list_all (\<lambda>x. \<exists>b. ?f x = Inr b) xs"
    unfolding list_all_iff
  proof
    fix x assume x: "x \<in> set xs"
    then have "printable x" using 6(2) by (simp add: list_all_iff)
    then show "\<exists>b. ?f x = Inr b" using 6(1)[OF x] by auto
  qed
  from js_map_ok[OF this] show ?case by simp
qed simp_all

lemma js_String_unprintable: "\<not> printable v \<Longrightarrow> js_String v = Inl TypeError"
proof (induction v rule: js_String.induct)
  case (6 xs)
  let ?f = "\<lambda>x. if x = JUndef \<or> x = JNull then Inr [] else js_String x"
  obtain x where x: "x \<in> set xs" "\<not> printable x"
    using 6(2) by (auto simp: list_all_iff)
  then have n: "\<not> (x = JUndef \<or> x = JNull)" by auto
  then have "?f x = Inl TypeError" using 6(1)[OF x(1) n x(2)] by simp
  then have "\<not> (\<exists>b. ?f x = Inr b)" by simp
  then have "\<not> list_all (\<lambda>x. \<exists>b. ?f x = Inr b) xs"
    using x(1) unfolding list_all_iff by blast
  from js_map_throws[OF this] show ?case by simp
qed simp_all

lemma js_set_at_printable: "printable name \<Longrightarrow> \<exists>b. js_set_at s name v = Inr b"
  using js_String_printable[of name] by (auto simp: js_set_at_def)

lemma js_set_at_unprintable: "\<not> printable name \<Longrightarrow> js_set_at s name v = Inl TypeError"
  by (simp add: js_set_at_def js_String_unprintable)

lemma js_set_at_Inr: "js_set_at s name v = Inr b \<longleftrightarrow> (\<exists>k. js_String name = Inr k \<and> b = js_set s k v)"
  by (auto simp: js_set_at_def split: sum.splits)

lemma options_entry_ok: "entry_ok x \<Longrightarrow> options_entry x = Inr (js_get x (js ''value'') \<noteq> JUndef)"
  by (cases x) (auto simp: options_entry_def split: option.splits)

lemma options_entry_bad: "\<not> entry_ok x \<Longrightarrow> options_entry x = Inl TypeError"
  by (cases x) (auto simp: options_entry_def)

lemma multi_entry_ok: "entry_ok x \<Longrightarrow> \<exists>b. multi_entry x = Inr b"
  by (cases x) (auto simp: multi_entry_def)

lemma js_member_present: "present m \<Longrightarrow> js_member m k = Inr (js_get m k)"
  by (cases m) (simp_all add: js_member_def)

lemma mode_record_present:
  "present m \<Longrightarrow> mode_record m = Inr (JObj [(js ''name'', js_get m (js ''name'')),
        (js ''displayName'', js_get m (js ''displayName'')), (js ''type'', js_get m (js ''type''))])"
  by (simp add: mode_record_def js_member_present)

lemma enum_name_ok: "truthy (js_get x (js ''name'')) \<or> printable (js_get x (js ''value'')) \<Longrightarrow> \<exists>n. enum_name x = Inr n"
  using js_String_printable[of "js_get x (js ''value'')"] by (auto simp: enum_name_def)

lemma enum_name_bad:
  "\<not> truthy (js_get x (js ''name'')) \<Longrightarrow> \<not> printable (js_get x (js ''value'')) \<Longrightarrow> enum_name x = Inl TypeError"
  by (simp add: enum_name_def js_String_unprintable)

lemma js_map_subset_ok:
  "list_all (\<lambda>x. \<exists>b. f x = Inr b) xs \<Longrightarrow> \<exists>ys. js_map f (filter P xs) = Inr ys"
  by (induction xs) auto

lemma options_filter:
  assumes "list_all entry_ok opts"
  shows "js_filter options_entry opts = Inr (filter declares_value opts)"
proof -
  have "list_all (\<lambda>x. \<exists>b. options_entry x = Inr b) opts"
    using assms by (simp add: list_all_iff options_entry_ok)
  then have "js_filter options_entry opts = Inr (filter (\<lambda>x. options_entry x = Inr True) opts)"
    by (rule js_filter_ok)
  also have "filter (\<lambda>x. options_entry x = Inr True) opts = filter declares_value opts"
    using assms by (intro filter_cong) (auto simp: list_all_iff options_entry_ok declares_value_def)
  finally show ?thesis .
qed

lemma options_filter_throws:
  assumes "\<not> list_all entry_ok opts"
  shows "js_filter options_entry opts = Inl TypeError"
proof -
  obtain x where x: "x \<in> set opts" "\<not> entry_ok x"
    using assms by (auto simp: list_all_iff)
  then have "options_entry x = Inl TypeError" by (simp add: options_entry_bad)
  then have "\<not> (\<exists>b. options_entry x = Inr b)" by simp
  then have "\<not> list_all (\<lambda>x. \<exists>b. options_entry x = Inr b) opts"
    using x(1) unfolding list_all_iff by blast
  then show ?thesis by (rule js_filter_throws)
qed

lemma option_ok_names:
  assumes "list_all option_ok opts"
  shows "\<exists>names. js_map enum_name (filter P opts) = Inr names"
proof (rule js_map_subset_ok)
  show "list_all (\<lambda>x. \<exists>b. enum_name x = Inr b) opts"
    using assms by (auto simp: list_all_iff option_ok_def intro: enum_name_ok)
qed

lemma option_bad_names:
  assumes "list_all entry_ok opts" "\<not> list_all option_ok opts"
  shows "js_map enum_name (filter declares_value opts) = Inl TypeError"
proof -
  obtain x where x: "x \<in> set opts" "entry_ok x" "\<not> truthy (js_get x (js ''name''))"
      "\<not> printable (js_get x (js ''value''))"
    using assms by (auto simp: list_all_iff option_ok_def)
  then have "js_get x (js ''value'') \<noteq> JUndef" by auto
  then have "x \<in> set (filter declares_value opts)" using x(1) by (simp add: declares_value_def)
  moreover have "\<not> (\<exists>b. enum_name x = Inr b)" using x(3,4) by (simp add: enum_name_bad)
  ultimately have "\<not> list_all (\<lambda>x. \<exists>b. enum_name x = Inr b) (filter declares_value opts)"
    unfolding list_all_iff by blast
  then show ?thesis by (rule js_map_throws)
qed

lemma case_options_array:
  assumes "js_get p (js ''options'') = JArr opts" "list_all entry_ok opts"
    and "js_map enum_name (filter declares_value opts) = Inr names"
  shows "case_options p s =
     Inr (let valid = filter declares_value opts;
              descs = map (\<lambda>opt. js_or (js_get opt (js ''description'')) (jstr [])) valid;
              s = js_set s (js ''type'') (jstr ''string'');
              s = js_set s (js ''enum'') (JArr (map (\<lambda>opt. js_get opt (js ''value'')) valid));
              s = js_set s (js ''x-enumNames'') (JArr names)
          in if list_ex truthy descs then js_set s (js ''x-enumDescriptions'') (JArr descs) else s)"
  using assms(1,3) by (simp add: case_options_def Let_def options_filter[OF assms(2)])

lemma case_options_throws:
  assumes "js_get p (js ''options'') = JArr opts" "\<not> list_all option_ok opts"
  shows "case_options p s = Inl TypeError"
proof (cases "list_all entry_ok opts")
  case True
  then show ?thesis
    using assms(1) option_bad_names[OF True assms(2)]
    by (simp add: case_options_def Let_def options_filter[OF True])
next
  case False
  then show ?thesis
    using assms(1) by (simp add: case_options_def options_filter_throws)
qed

lemma case_options_ok:
  assumes "case js_get p (js ''options'') of JArr opts \<Rightarrow> list_all option_ok opts | _ \<Rightarrow> True"
  shows "\<exists>r. case_options p s = Inr r"
proof (cases "js_get p (js ''options'')")
  case (JArr opts)
  then have ok: "list_all option_ok opts" using assms by simp
  then have e: "list_all entry_ok opts" by (simp add: list_all_iff option_ok_def)
  obtain names where "js_map enum_name (filter declares_value opts) = Inr names"
    using option_ok_names[OF ok] by blast
  from case_options_array[OF JArr e this] show ?thesis by blast
qed (simp_all add: case_options_def)

lemma case_multiOptions_ok:
  assumes "case js_get p (js ''options'') of JArr opts \<Rightarrow> list_all option_ok opts | _ \<Rightarrow> True"
  shows "\<exists>r. case_multiOptions p s = Inr r"
proof (cases "js_get p (js ''options'')")
  case (JArr opts)
  then have ok: "list_all option_ok opts" using assms by simp
  then have "list_all (\<lambda>x. \<exists>b. multi_entry x = Inr b) opts"
    by (simp add: list_all_iff option_ok_def multi_entry_ok)
  then have f: "js_filter multi_entry opts = Inr (filter (\<lambda>x. multi_entry x = Inr True) opts)"
    by (rule js_filter_ok)
  obtain names where "js_map enum_name (filter (\<lambda>x. multi_entry x = Inr True) opts) = Inr names"
    using option_ok_names[OF ok] by blast
  then show ?thesis using JArr f by (simp add: case_multiOptions_def Let_def)
qed (simp_all add: case_multiOptions_def)

lemma case_resourceLocator_ok:
  assumes "case js_get p (js ''modes'') of JArr ms \<Rightarrow> list_all present ms | _ \<Rightarrow> True"
  shows "\<exists>r. case_resourceLocator p s = Inr r"
proof (cases "js_get p (js ''modes'')")
  case (JArr ms)
  then have pr: "list_all present ms" using assms by simp
  then have 1: "list_all (\<lambda>x. \<exists>b. js_member x (js ''name'') = Inr b) ms"
    by (simp add: list_all_iff js_member_present)
  have 2: "list_all (\<lambda>x. \<exists>b. mode_record x = Inr b) ms"
    using pr by (simp add: list_all_iff mode_record_present)
  show ?thesis using JArr js_map_ok[OF 1] js_map_ok[OF 2]
    by (simp add: case_resourceLocator_def Let_def)
qed (simp_all add: case_resourceLocator_def)

lemma add_sub_ok:
  assumes "conv sub = Inr r" "truthy r \<Longrightarrow> printable (js_get sub (js ''name''))"
  shows "\<exists>b. add_sub conv sub ps = Inr b"
  using assms js_set_at_printable[of "js_get sub (js ''name'')" ps r]
  by (auto simp: add_sub_def)

lemma add_group_ok:
  assumes "named grp \<Longrightarrow> printable (js_get grp (js ''name''))"
    and "\<And>subs sub. named grp \<Longrightarrow> js_get grp (js ''values'') = JArr subs \<Longrightarrow> sub \<in> set subs
           \<Longrightarrow> \<exists>r. conv sub = Inr r \<and> (truthy r \<longrightarrow> printable (js_get sub (js ''name'')))"
  shows "\<exists>b. add_group conv multi grp ps = Inr b"
proof (cases "named grp")
  case False
  then show ?thesis by (auto simp: add_group_def named_def)
next
  case True
  note pr = js_set_at_printable[OF assms(1)[OF True]]
  show ?thesis
  proof (cases "js_get grp (js ''values'')")
    case (JArr subs)
    have "\<exists>b. for_of (add_sub conv) subs [] = Inr b"
    proof (rule for_of_ok)
      fix x a assume "x \<in> set subs"
      from assms(2)[OF True JArr this] obtain r where
        "conv x = Inr r" "truthy r \<longrightarrow> printable (js_get x (js ''name''))" by blast
      then show "\<exists>b. add_sub conv x a = Inr b" by (intro add_sub_ok) auto
    qed
    then obtain b where b: "for_of (add_sub conv) subs [] = Inr b" by blast
    show ?thesis using True JArr b pr by (simp add: add_group_def named_def Let_def)
  qed (use True pr in \<open>simp_all add: add_group_def named_def Let_def\<close>)
qed

lemma propToSchema_fragment_or_throw:
  "\<not> no_contribution p \<Longrightarrow> propToSchema p = Inl TypeError \<or> (\<exists>kvs. propToSchema p = Inr (JObj kvs))"
  by (cases "case_options p (common_fields p)"; cases "case_multiOptions p (common_fields p)";
      cases "case_resourceLocator p (common_fields p)")
     (auto simp: propToSchema.simps[of p] no_contribution_def Let_def error_is_TypeError
           split: jsval.splits sum.splits)

lemma propToSchema_null_iff: "propToSchema p = Inr JNull \<longleftrightarrow> no_contribution p"
proof
  assume "propToSchema p = Inr JNull"
  then show "no_contribution p" using propToSchema_fragment_or_throw[of p] by auto
next
  assume "no_contribution p"
  then show "propToSchema p = Inr JNull" by (simp add: propToSchema.simps[of p] no_contribution_def)
qed

lemma propToSchema_truthy_result:
  assumes "propToSchema p = Inr r" "truthy r"
  shows "\<not> no_contribution p"
  using assms propToSchema_null_iff[of p] by auto

lemma propToSchema_returns: "well_formed p \<Longrightarrow> \<exists>v. propToSchema p = Inr v"
proof (induction p rule: sub_induct)
  case (step p)
  note wf = step.prems
  let ?sub_ok = "\<lambda>sub. well_formed sub \<and> (no_contribution sub \<or> printable (js_get sub (js ''name'')))"
  have sub: "\<exists>r. propToSchema sub = Inr r \<and> (truthy r \<longrightarrow> printable (js_get sub (js ''name'')))"
    if a: "?sub_ok sub" and b: "well_formed sub \<Longrightarrow> \<exists>v. propToSchema sub = Inr v" for sub
  proof -
    obtain r where r: "propToSchema sub = Inr r" using a b by blast
    have "printable (js_get sub (js ''name''))" if t: "truthy r"
      using propToSchema_truthy_result[OF r t] a by simp
    then show ?thesis using r by blast
  qed
  show ?case
  proof (cases "no_contribution p")
    case True
    then show ?thesis by (simp add: propToSchema.simps[of p] no_contribution_def)
  next
    case nc: False
    let ?t = "js_get p (js ''type'')"
    consider (opt) "?t = jstr ''options''" | (multi) "?t = jstr ''multiOptions''"
      | (coll) "?t = jstr ''collection''" | (fixed) "?t = jstr ''fixedCollection''"
      | (rl) "?t = jstr ''resourceLocator''"
      | (other) "?t \<noteq> jstr ''options''" "?t \<noteq> jstr ''multiOptions''" "?t \<noteq> jstr ''collection''"
          "?t \<noteq> jstr ''fixedCollection''" "?t \<noteq> jstr ''resourceLocator''"
      by blast
    then show ?thesis
    proof cases
      case opt
      then have "case js_get p (js ''options'') of JArr opts \<Rightarrow> list_all option_ok opts | _ \<Rightarrow> True"
        using wf nc by (simp add: well_formed.simps[of p])
      from case_options_ok[OF this, of "common_fields p"] show ?thesis
        using nc opt by (auto simp: propToSchema.simps[of p] no_contribution_def)
    next
      case multi
      then have "case js_get p (js ''options'') of JArr opts \<Rightarrow> list_all option_ok opts | _ \<Rightarrow> True"
        using wf nc by (simp add: well_formed.simps[of p])
      from case_multiOptions_ok[OF this, of "common_fields p"] show ?thesis
        using nc multi by (auto simp: propToSchema.simps[of p] no_contribution_def)
    next
      case coll
      show ?thesis
      proof (cases "js_get p (js ''options'')")
        case (JArr subs)
        have ok: "list_all ?sub_ok subs"
          using wf nc coll JArr by (simp add: well_formed.simps[of p])
        have "\<exists>b. for_of (add_sub propToSchema) subs [] = Inr b"
        proof (rule for_of_ok)
          fix x a assume x: "x \<in> set subs"
          then have "?sub_ok x" using ok by (simp add: list_all_iff)
          from sub[OF this step.IH(1)[OF JArr x]] obtain r where
            "propToSchema x = Inr r" "truthy r \<longrightarrow> printable (js_get x (js ''name''))" by blast
          then show "\<exists>b. add_sub propToSchema x a = Inr b" by (intro add_sub_ok) auto
        qed
        then show ?thesis
          using nc coll JArr by (auto simp: propToSchema.simps[of p] no_contribution_def Let_def)
      qed (use nc coll in \<open>simp_all add: propToSchema.simps[of p] no_contribution_def Let_def\<close>)
    next
      case fixed
      show ?thesis
      proof (cases "js_get p (js ''options'')")
        case (JArr grps)
        have g: "list_all (\<lambda>grp. if named grp
                         then printable (js_get grp (js ''name''))
                              \<and> (case js_get grp (js ''values'') of
                                    JArr subs \<Rightarrow> list_all ?sub_ok subs
                                  | _ \<Rightarrow> True)
                         else True) grps"
          using wf nc fixed JArr by (simp add: well_formed.simps[of p])
        have "\<exists>b. for_of (add_group propToSchema multi) grps [] = Inr b" for multi
        proof (rule for_of_ok)
          fix grp a assume grp: "grp \<in> set grps"
          show "\<exists>b. add_group propToSchema multi grp a = Inr b"
          proof (rule add_group_ok)
            assume "named grp"
            then show "printable (js_get grp (js ''name''))"
              using g grp by (auto simp: list_all_iff)
          next
            fix subs x assume n: "named grp" and v: "js_get grp (js ''values'') = JArr subs"
              and x: "x \<in> set subs"
            have "if named grp
                  then printable (js_get grp (js ''name''))
                       \<and> (case js_get grp (js ''values'') of
                             JArr subs \<Rightarrow> list_all ?sub_ok subs
                           | _ \<Rightarrow> True)
                  else True"
              using g grp unfolding list_all_iff by blast
            then have "list_all ?sub_ok subs" using n v by simp
            then have "?sub_ok x" using x by (simp add: list_all_iff)
            from sub[OF this step.IH(2)[OF JArr grp v x]]
            show "\<exists>r. propToSchema x = Inr r \<and> (truthy r \<longrightarrow> printable (js_get x (js ''name'')))" .
          qed
        qed
        then obtain b where
          "for_of (add_group propToSchema (truthy (js_get p (js ''typeOptions''))
              \<and> truthy (js_get (js_get p (js ''typeOptions'')) (js ''multipleValues'')))) grps [] = Inr b"
          by blast
        then show ?thesis
          using nc fixed JArr by (simp add: propToSchema.simps[of p] no_contribution_def Let_def)
      qed (use nc fixed in \<open>simp_all add: propToSchema.simps[of p] no_contribution_def Let_def\<close>)
    next
      case rl
      then have "case js_get p (js ''modes'') of JArr ms \<Rightarrow> list_all present ms | _ \<Rightarrow> True"
        using wf nc by (simp add: well_formed.simps[of p])
      from case_resourceLocator_ok[OF this, of "common_fields p"] show ?thesis
        using nc rl by (auto simp: propToSchema.simps[of p] no_contribution_def)
    next
      case other
      then show ?thesis
        using nc by (simp add: propToSchema.simps[of p] no_contribution_def)
    qed
  qed
qed

lemma propToSchema_options:
  assumes "truthy (js_get p (js ''name''))" "js_get p (js ''type'') = jstr ''options''"
  shows "propToSchema p = map_sum id JObj (case_options p (common_fields p))"
  using assms truthy_name_object[OF assms(1)] by (simp add: propToSchema.simps[of p])

lemma common_fields_keys:
  "map_of (common_fields p) (js ''enum'') = None"
  "map_of (common_fields p) (js ''x-enumNames'') = None"
  "map_of (common_fields p) (js ''x-enumDescriptions'') = None"
  "map_of (common_fields p) (js ''properties'') = None"
  "map_of (common_fields p) (js ''required'') = None"
  "map_of (common_fields p) (js ''x-modes'') = None"
  "map_of (common_fields p) (js ''type'') = None"
  by (simp_all add: common_fields_def map_of_js_set)

lemma list_ex_descs:
  "list_ex truthy (map (\<lambda>opt. js_or (js_get opt (js ''description'')) (jstr [])) xs)
   \<longleftrightarrow> list_ex (\<lambda>opt. truthy (js_get opt (js ''description''))) xs"
  by (induction xs) (auto simp: js_or_def)

lemma propToSchema_resourceLocator:
  assumes "truthy (js_get p (js ''name''))" "js_get p (js ''type'') = jstr ''resourceLocator''"
  shows "propToSchema p = map_sum id JObj (case_resourceLocator p (common_fields p))"
  using assms truthy_name_object[OF assms(1)] by (simp add: propToSchema.simps[of p])

lemma js_map_cong_ok:
  "list_all (\<lambda>x. f x = Inr (g x)) xs \<Longrightarrow> js_map f xs = Inr (map g xs)"
  by (induction xs) auto

lemma case_resourceLocator_modes:
  assumes "js_get p (js ''modes'') = JArr ms" "list_all present ms"
  shows "case_resourceLocator p s =
     Inr (js_set (js_set (js_set (js_set s (js ''type'') (jstr ''object''))
            (js ''properties'') (locator_properties (mode_names ms)))
            (js ''required'') (JArr [jstr ''mode'', jstr ''value'']))
            (js ''x-modes'') (JArr (map mode_metadata ms)))"
proof -
  have 1: "js_map (\<lambda>m. js_member m (js ''name'')) ms = Inr (map (\<lambda>m. js_get m (js ''name'')) ms)"
    using assms(2) by (intro js_map_cong_ok) (simp add: list_all_iff js_member_present)
  have 2: "js_map mode_record ms = Inr (map mode_metadata ms)"
    using assms(2) by (intro js_map_cong_ok) (simp add: list_all_iff mode_record_present mode_metadata_def)
  show ?thesis
    using assms(1) by (simp add: case_resourceLocator_def Let_def 1 2 mode_names_def locator_properties_def)
qed

lemma js_member_absent: "\<not> present m \<Longrightarrow> js_member m k = Inl TypeError"
  by (cases m) (simp_all add: js_member_def)

lemma case_resourceLocator_throws:
  assumes "js_get p (js ''modes'') = JArr ms" "\<not> list_all present ms"
  shows "case_resourceLocator p s = Inl TypeError"
proof -
  have "\<not> list_all (\<lambda>x. \<exists>b. js_member x (js ''name'') = Inr b) ms"
  proof -
    obtain x where x: "x \<in> set ms" "\<not> present x"
      using assms(2) by (auto simp: list_all_iff)
    then have "\<not> (\<exists>b. js_member x (js ''name'') = Inr b)" by (simp add: js_member_absent)
    then show ?thesis using x(1) unfolding list_all_iff by blast
  qed
  then have "js_map (\<lambda>m. js_member m (js ''name'')) ms = Inl TypeError"
    by (rule js_map_throws)
  then show ?thesis using assms(1) by (simp add: case_resourceLocator_def)
qed

lemma case_resourceLocator_default:
  assumes "\<not> is_array (js_get p (js ''modes''))"
  shows "case_resourceLocator p s =
     Inr (js_set (js_set (js_set s (js ''type'') (jstr ''object''))
            (js ''properties'') (locator_properties [jstr ''id'', jstr ''url'', jstr ''list'']))
            (js ''required'') (JArr [jstr ''mode'', jstr ''value'']))"
  using assms by (cases "js_get p (js ''modes'')") (simp_all add: case_resourceLocator_def Let_def locator_properties_def)

lemma for_of_skip:
  "list_all (\<lambda>x. \<forall>a. f x a = Inr a) xs \<Longrightarrow> for_of f xs a = Inr a"
  by (induction xs) auto

lemma add_group_skip: "\<not> named grp \<Longrightarrow> add_group conv multi grp ps = Inr ps"
  by (auto simp: add_group_def named_def)

lemma propToSchema_collection_flat:
  assumes "truthy (js_get p (js ''name''))" "js_get p (js ''type'') = jstr ''collection''"
    "\<not> is_array (js_get p (js ''options''))"
  shows "propToSchema p = Inr (JObj (js_set (common_fields p) (js ''type'') (jstr ''object'')))"
  using assms truthy_name_object[OF assms(1)]
  by (cases "js_get p (js ''options'')") (simp_all add: propToSchema.simps[of p] Let_def)

lemma propToSchema_fixedCollection:
  assumes "truthy (js_get p (js ''name''))" "js_get p (js ''type'') = jstr ''fixedCollection''"
  shows "propToSchema p =
     (case (case js_get p (js ''options'') of
              JArr grps \<Rightarrow>
                for_of (add_group propToSchema
                          (truthy (js_get p (js ''typeOptions''))
                           \<and> truthy (js_get (js_get p (js ''typeOptions'')) (js ''multipleValues''))))
                  grps []
            | _ \<Rightarrow> Inr []) of
        Inl e \<Rightarrow> Inl e
      | Inr ps \<Rightarrow>
          Inr (JObj (js_set (js_set (common_fields p) (js ''type'') (jstr ''object''))
                       (js ''properties'') (JObj ps))))"
  using assms truthy_name_object[OF assms(1)]
  by (simp add: propToSchema.simps[of p] Let_def)


section \<open>No contribution, a fragment, or an exception\<close>

text \<open>
  C1 as stated, that every input past the test of line 12 yields a fragment, fails: an
  \<^verbatim>\<open>options\<close> entry that is a non-empty string makes \<^verbatim>\<open>'value' in o\<close> throw. Here is
  \<^verbatim>\<open>{name:"x", type:"options", options:["a"]}\<close>.
\<close>

theorem primitive_option_throws:
  "\<not> no_contribution (JObj [(js ''name'', jstr ''x''), (js ''type'', jstr ''options''),
                            (js ''options'', JArr [jstr ''a''])])
   \<and> propToSchema (JObj [(js ''name'', jstr ''x''), (js ''type'', jstr ''options''),
                          (js ''options'', JArr [jstr ''a''])]) = Inl TypeError"
  by (simp add: no_contribution_def propToSchema.simps common_fields_def case_options_def
      options_entry_def js_set_def)

text \<open>
  A name that cannot become a property key throws as well (line 66):
  \<^verbatim>\<open>{name:"c", type:"collection", options:[{name:{toString:1}, type:"string"}]}\<close>.
\<close>

lemma unprintable_name_throws:
  "propToSchema (JObj [(js ''name'', jstr ''c''), (js ''type'', jstr ''collection''),
                       (js ''options'',
                        JArr [JObj [(js ''name'', JObj [(js ''toString'', JNum 1)]),
                                    (js ''type'', jstr ''string'')]])])
   = Inl TypeError"
  by (simp add: propToSchema.simps common_fields_def case_string_def add_sub_def js_set_at_def
      js_set_def)

text \<open>
  C1, amended. For every input, the converter returns \<^verbatim>\<open>null\<close> exactly when the input is
  false (absent), its \<^verbatim>\<open>name\<close> is false (missing or empty), or its \<^verbatim>\<open>type\<close> is
  \<^verbatim>\<open>'notice'\<close>. For every other input it returns a fragment or throws, and, the call stack
  being deep enough for the nesting of the input, it returns a fragment whenever the input
  is well formed: the entries of the \<^verbatim>\<open>options\<close> of an options or multiOptions definition
  are objects, arrays or false values, each with a non-empty name or a value that
  \<^verbatim>\<open>String\<close> accepts; the entries of the \<^verbatim>\<open>modes\<close> of a resourceLocator are neither
  \<^verbatim>\<open>undefined\<close> nor \<^verbatim>\<open>null\<close>; the sub-definitions of a collection and of the named groups
  of a fixedCollection are well formed; and the name of every contributing sub-definition
  and of every named group is accepted as a property key.
\<close>

theorem null_fragment_or_throw:
  "(propToSchema p = Inr JNull \<longleftrightarrow> no_contribution p)
   \<and> (\<not> no_contribution p \<longrightarrow>
        isl (propToSchema p) \<or> (\<exists>kvs. propToSchema p = Inr (JObj kvs)))
   \<and> (\<not> no_contribution p \<and> well_formed p \<longrightarrow> (\<exists>kvs. propToSchema p = Inr (JObj kvs)))"
proof (intro conjI impI)
  show "propToSchema p = Inr JNull \<longleftrightarrow> no_contribution p"
    by (rule propToSchema_null_iff)
next
  assume "\<not> no_contribution p"
  then show "isl (propToSchema p) \<or> (\<exists>kvs. propToSchema p = Inr (JObj kvs))"
    using propToSchema_fragment_or_throw[of p] by auto
next
  assume a: "\<not> no_contribution p \<and> well_formed p"
  then obtain v where "propToSchema p = Inr v"
    using propToSchema_returns by blast
  then show "\<exists>kvs. propToSchema p = Inr (JObj kvs)"
    using a propToSchema_fragment_or_throw[of p] by auto
qed

lemma nested_example_well_formed:
  "\<not> no_contribution
        (JObj [(js ''name'', jstr ''extra''), (js ''type'', jstr ''collection''),
               (js ''options'',
                JArr [JObj [(js ''name'', jstr ''mode''), (js ''type'', jstr ''options''),
                            (js ''options'', JArr [JObj [(js ''name'', jstr ''A''), (js ''value'', jstr ''a'')]])],
                      JObj [(js ''name'', jstr ''hint''), (js ''type'', jstr ''notice'')]])])
   \<and> well_formed
        (JObj [(js ''name'', jstr ''extra''), (js ''type'', jstr ''collection''),
               (js ''options'',
                JArr [JObj [(js ''name'', jstr ''mode''), (js ''type'', jstr ''options''),
                            (js ''options'', JArr [JObj [(js ''name'', jstr ''A''), (js ''value'', jstr ''a'')]])],
                      JObj [(js ''name'', jstr ''hint''), (js ''type'', jstr ''notice'')]])])"
  by (simp add: no_contribution_def well_formed.simps option_ok_def)

theorem null_fragment_or_throw_witness:
  "\<not> no_contribution
        (JObj [(js ''name'', jstr ''extra''), (js ''type'', jstr ''collection''),
               (js ''options'',
                JArr [JObj [(js ''name'', jstr ''mode''), (js ''type'', jstr ''options''),
                            (js ''options'', JArr [JObj [(js ''name'', jstr ''A''), (js ''value'', jstr ''a'')]])],
                      JObj [(js ''name'', jstr ''hint''), (js ''type'', jstr ''notice'')]])])
   \<and> well_formed
        (JObj [(js ''name'', jstr ''extra''), (js ''type'', jstr ''collection''),
               (js ''options'',
                JArr [JObj [(js ''name'', jstr ''mode''), (js ''type'', jstr ''options''),
                            (js ''options'', JArr [JObj [(js ''name'', jstr ''A''), (js ''value'', jstr ''a'')]])],
                      JObj [(js ''name'', jstr ''hint''), (js ''type'', jstr ''notice'')]])])
   \<and> (\<exists>kvs. propToSchema
        (JObj [(js ''name'', jstr ''extra''), (js ''type'', jstr ''collection''),
               (js ''options'',
                JArr [JObj [(js ''name'', jstr ''mode''), (js ''type'', jstr ''options''),
                            (js ''options'', JArr [JObj [(js ''name'', jstr ''A''), (js ''value'', jstr ''a'')]])],
                      JObj [(js ''name'', jstr ''hint''), (js ''type'', jstr ''notice'')]])]) = Inr (JObj kvs))
   \<and> propToSchema JNull = Inr JNull"
  using null_fragment_or_throw[of
      "JObj [(js ''name'', jstr ''extra''), (js ''type'', jstr ''collection''),
               (js ''options'',
                JArr [JObj [(js ''name'', jstr ''mode''), (js ''type'', jstr ''options''),
                            (js ''options'', JArr [JObj [(js ''name'', jstr ''A''), (js ''value'', jstr ''a'')]])],
                      JObj [(js ''name'', jstr ''hint''), (js ''type'', jstr ''notice'')]])]"]
    nested_example_well_formed null_fragment_or_throw[of JNull]
  by (simp add: no_contribution_def)

section \<open>The filter of the multiOptions arm\<close>

text \<open>
  C2 asks the multiOptions arm to keep the entries the options arm keeps. The entry
  \<^verbatim>\<open>{name:"A", value:undefined}\<close> declares the key with no defined value: the options arm
  (line 42) drops it, the multiOptions arm (line 52) keeps it, with \<^verbatim>\<open>undefined\<close> in the
  enumeration.
\<close>

theorem multiOptions_keeps_undefined_value:
  "propToSchema (JObj [(js ''name'', jstr ''tags''), (js ''type'', jstr ''multiOptions''),
                       (js ''options'', JArr [JObj [(js ''name'', jstr ''A''), (js ''value'', JUndef)]])])
     = Inr (JObj [(js ''type'', jstr ''array''),
                  (js ''items'', JObj [(js ''type'', jstr ''string''), (js ''enum'', JArr [JUndef])]),
                  (js ''x-enumNames'', JArr [jstr ''A''])])
   \<and> propToSchema (JObj [(js ''name'', jstr ''tags''), (js ''type'', jstr ''options''),
                          (js ''options'', JArr [JObj [(js ''name'', jstr ''A''), (js ''value'', JUndef)]])])
     = Inr (JObj [(js ''type'', jstr ''string''), (js ''enum'', JArr []), (js ''x-enumNames'', JArr [])])"
  by (simp add: propToSchema.simps common_fields_def case_options_def case_multiOptions_def
      options_entry_def multi_entry_def enum_name_def js_or_def js_set_def)

section \<open>The options arm\<close>

text \<open>
  C3. For every property definition with type \<^verbatim>\<open>options\<close> and an array of \<^verbatim>\<open>options\<close>, the
  fragment's \<^verbatim>\<open>enum\<close> and \<^verbatim>\<open>x-enumNames\<close> are built from exactly the entries that declare a
  defined value, in order (the values themselves, and the result of the name callback of
  line 44 on each), and \<^verbatim>\<open>x-enumDescriptions\<close> is present if and only if one of those
  entries has a non-empty description. The fragment exists exactly when every entry is
  one the arm handles; otherwise the conversion throws. The scenario's definition yields
  enum \<^verbatim>\<open>["fast","slow"]\<close>, names \<^verbatim>\<open>["Fast","Slow"]\<close> and descriptions \<^verbatim>\<open>["","x"]\<close>.
\<close>

theorem options_enumeration:
  "(truthy (js_get p (js ''name'')) \<and> js_get p (js ''type'') = jstr ''options''
      \<and> js_get p (js ''options'') = JArr opts
    \<longrightarrow> (if list_all option_ok opts
         then \<exists>kvs names. propToSchema p = Inr (JObj kvs)
          \<and> js_map enum_name (filter declares_value opts) = Inr names
          \<and> map_of kvs (js ''type'') = Some (jstr ''string'')
          \<and> map_of kvs (js ''enum'')
              = Some (JArr (map (\<lambda>opt. js_get opt (js ''value'')) (filter declares_value opts)))
          \<and> map_of kvs (js ''x-enumNames'') = Some (JArr names)
          \<and> map_of kvs (js ''x-enumDescriptions'')
              = (if list_ex (\<lambda>opt. truthy (js_get opt (js ''description''))) (filter declares_value opts)
                 then Some (JArr (map (\<lambda>opt. js_or (js_get opt (js ''description'')) (jstr []))
                                      (filter declares_value opts)))
                 else None)
         else isl (propToSchema p)))
   \<and> propToSchema mode_definition
      = Inr (JObj [(js ''type'', jstr ''string''),
                   (js ''enum'', JArr [jstr ''fast'', jstr ''slow'']),
                   (js ''x-enumNames'', JArr [jstr ''Fast'', jstr ''Slow'']),
                   (js ''x-enumDescriptions'', JArr [jstr [], jstr ''x''])])"
proof (intro conjI impI)
  assume a: "truthy (js_get p (js ''name'')) \<and> js_get p (js ''type'') = jstr ''options''
      \<and> js_get p (js ''options'') = JArr opts"
  then have 1: "propToSchema p = map_sum id JObj (case_options p (common_fields p))"
    by (simp add: propToSchema_options)
  from a have o: "js_get p (js ''options'') = JArr opts" by simp
  show "if list_all option_ok opts
         then \<exists>kvs names. propToSchema p = Inr (JObj kvs)
          \<and> js_map enum_name (filter declares_value opts) = Inr names
          \<and> map_of kvs (js ''type'') = Some (jstr ''string'')
          \<and> map_of kvs (js ''enum'')
              = Some (JArr (map (\<lambda>opt. js_get opt (js ''value'')) (filter declares_value opts)))
          \<and> map_of kvs (js ''x-enumNames'') = Some (JArr names)
          \<and> map_of kvs (js ''x-enumDescriptions'')
              = (if list_ex (\<lambda>opt. truthy (js_get opt (js ''description''))) (filter declares_value opts)
                 then Some (JArr (map (\<lambda>opt. js_or (js_get opt (js ''description'')) (jstr []))
                                      (filter declares_value opts)))
                 else None)
         else isl (propToSchema p)"
  proof (cases "list_all option_ok opts")
    case False
    then show ?thesis by (simp add: 1 case_options_throws[OF o False])
  next
    case True
    then have e: "list_all entry_ok opts" by (simp add: list_all_iff option_ok_def)
    obtain names where n: "js_map enum_name (filter declares_value opts) = Inr names"
      using option_ok_names[OF True] by blast
    show ?thesis
      unfolding 1 case_options_array[OF o e n] using True n
      by (simp add: Let_def map_of_js_set common_fields_keys list_ex_descs)
  qed
next
  show "propToSchema mode_definition
      = Inr (JObj [(js ''type'', jstr ''string''),
                   (js ''enum'', JArr [jstr ''fast'', jstr ''slow'']),
                   (js ''x-enumNames'', JArr [jstr ''Fast'', jstr ''Slow'']),
                   (js ''x-enumDescriptions'', JArr [jstr [], jstr ''x''])])"
    by (simp add: mode_definition_def propToSchema.simps common_fields_def case_options_def
        options_entry_def enum_name_def js_or_def js_set_def)
qed

text \<open>
  Two entries without a name: the number \<^verbatim>\<open>7\<close> is named by its digits, and an object value
  with an own \<^verbatim>\<open>toString\<close> property makes \<^verbatim>\<open>String\<close> throw.
\<close>

lemma nameless_options_example:
  "propToSchema (JObj [(js ''name'', jstr ''n''), (js ''type'', jstr ''options''),
                       (js ''options'', JArr [JObj [(js ''value'', JNum 7)]])])
     = Inr (JObj [(js ''type'', jstr ''string''), (js ''enum'', JArr [JNum 7]),
                  (js ''x-enumNames'', JArr [jstr ''7''])])
   \<and> propToSchema (JObj [(js ''name'', jstr ''n''), (js ''type'', jstr ''options''),
                          (js ''options'',
                           JArr [JObj [(js ''value'', JObj [(js ''toString'', JNum 1)])]])])
     = Inl TypeError"
  by (simp add: propToSchema.simps common_fields_def case_options_def
      options_entry_def enum_name_def js_or_def js_set_def show_int_def js_def)

theorem options_enumeration_witness:
  "truthy (js_get mode_definition (js ''name''))
   \<and> js_get mode_definition (js ''type'') = jstr ''options''
   \<and> js_get mode_definition (js ''options'')
       = JArr [JObj [(js ''name'', jstr ''Fast''), (js ''value'', jstr ''fast'')],
               JObj [(js ''name'', jstr ''Slow''), (js ''value'', jstr ''slow''),
                     (js ''description'', jstr ''x'')]]
   \<and> (\<exists>kvs. propToSchema mode_definition = Inr (JObj kvs)
          \<and> map_of kvs (js ''type'') = Some (jstr ''string'')
          \<and> map_of kvs (js ''enum'') = Some (JArr [jstr ''fast'', jstr ''slow''])
          \<and> map_of kvs (js ''x-enumNames'') = Some (JArr [jstr ''Fast'', jstr ''Slow''])
          \<and> map_of kvs (js ''x-enumDescriptions'') = Some (JArr [jstr [], jstr ''x'']))"
  using options_enumeration[of mode_definition
      "[JObj [(js ''name'', jstr ''Fast''), (js ''value'', jstr ''fast'')],
        JObj [(js ''name'', jstr ''Slow''), (js ''value'', jstr ''slow''),
              (js ''description'', jstr ''x'')]]"]
  by (auto simp: mode_definition_def declares_value_def enum_name_def js_or_def option_ok_def)

section \<open>What the assembler stores\<close>

text \<open>
  The loop of the assembler stores a fragment under every key other than \<^verbatim>\<open>__proto__\<close>: the
  last definition that contributes under a key decides its entry, and every entry comes
  from a definition of the description.
\<close>

lemma add_prop_contributes:
  "contributes p k f \<Longrightarrow> add_prop p ps = Inr (js_set ps k f)"
  by (auto simp: contributes_def named_def add_prop_def js_set_at_def)

lemma add_prop_other:
  assumes "add_prop p ps = Inr ps'"
  shows "ps' = ps \<or> (\<exists>k f. contributes p k f \<and> ps' = js_set ps k f)"
  using assms
  by (auto simp: contributes_def named_def add_prop_def js_set_at_def split: if_splits sum.splits)

lemma for_of_append:
  "for_of f (xs @ ys) a = (case for_of f xs a of Inl e \<Rightarrow> Inl e | Inr b \<Rightarrow> for_of f ys b)"
  by (induction xs arbitrary: a) (auto split: sum.splits)

lemma for_of_add_prop_keeps:
  assumes "for_of add_prop ys acc = Inr res" "\<forall>q\<in>set ys. \<forall>g. \<not> contributes q k g"
  shows "map_of res k = map_of acc k"
  using assms
proof (induction ys arbitrary: acc)
  case Nil
  then show ?case by simp
next
  case (Cons y ys)
  from Cons.prems(1) obtain mid where mid: "add_prop y acc = Inr mid" "for_of add_prop ys mid = Inr res"
    by (auto split: sum.splits)
  have "map_of mid k = map_of acc k"
    using add_prop_other[OF mid(1)] Cons.prems(2) by (auto simp: map_of_js_set)
  moreover have "map_of res k = map_of mid k"
    using mid(2) Cons.prems(2) by (intro Cons.IH) simp_all
  ultimately show ?case by simp
qed

lemma for_of_add_prop_proto:
  "for_of add_prop ps acc = Inr res \<Longrightarrow> map_of res (js ''__proto__'') = map_of acc (js ''__proto__'')"
proof (induction ps arbitrary: acc)
  case Nil
  then show ?case by simp
next
  case (Cons y ys)
  from Cons.prems obtain mid where mid: "add_prop y acc = Inr mid" "for_of add_prop ys mid = Inr res"
    by (auto split: sum.splits)
  have "map_of mid (js ''__proto__'') = map_of acc (js ''__proto__'')"
    using add_prop_other[OF mid(1)] by (auto simp: map_of_js_set)
  then show ?case using Cons.IH[OF mid(2)] by simp
qed

lemma for_of_add_prop_last_wins:
  assumes "for_of add_prop (xs @ p # ys) acc = Inr res"
    and "contributes p k f" "k \<noteq> js ''__proto__''"
    and "\<forall>q\<in>set ys. \<forall>g. \<not> contributes q k g"
  shows "map_of res k = Some f"
proof -
  from assms(1) obtain a where a: "for_of add_prop xs acc = Inr a" "for_of add_prop (p # ys) a = Inr res"
    by (auto simp: for_of_append split: sum.splits)
  then have "for_of add_prop ys (js_set a k f) = Inr res"
    using add_prop_contributes[OF assms(2)] by simp
  then have "map_of res k = map_of (js_set a k f) k"
    using assms(4) by (rule for_of_add_prop_keeps)
  then show ?thesis using assms(3) by (simp add: map_of_js_set)
qed

lemma for_of_add_prop_source:
  assumes "for_of add_prop ps acc = Inr res" "map_of res k = Some f"
  shows "map_of acc k = Some f \<or> (\<exists>p\<in>set ps. contributes p k f)"
  using assms
proof (induction ps arbitrary: acc)
  case Nil
  then show ?case by simp
next
  case (Cons y ys)
  from Cons.prems(1) obtain mid where mid: "add_prop y acc = Inr mid" "for_of add_prop ys mid = Inr res"
    by (auto split: sum.splits)
  from Cons.IH[OF mid(2) Cons.prems(2)]
  consider "map_of mid k = Some f" | "\<exists>p\<in>set ys. contributes p k f" by blast
  then show ?case
  proof cases
    case 1
    then show ?thesis
      using add_prop_other[OF mid(1)] by (auto simp: map_of_js_set split: if_splits)
  next
    case 2
    then show ?thesis by auto
  qed
qed

lemma descToSchema_properties:
  assumes "descToSchema desc ver = Inr doc" "js_get desc (js ''properties'') = JArr ps"
  shows "\<exists>res. for_of add_prop ps [] = Inr res \<and> js_get doc (js ''properties'') = JObj res"
proof (cases "for_of add_prop ps []")
  case (Inl e)
  then show ?thesis
    using assms by (simp add: descToSchema_def js_or_def split: if_splits)
next
  case (Inr res)
  then have "doc = JObj (js_set (schema_fields desc ver) (js ''properties'') (JObj res))"
    using assms by (simp add: descToSchema_def js_or_def split: if_splits)
  then show ?thesis using Inr by (simp add: map_of_js_set)
qed

lemma assembler_last_wins:
  assumes "descToSchema desc ver = Inr doc"
    and "js_get desc (js ''properties'') = JArr (xs @ p # ys)"
    and "contributes p k f" "k \<noteq> js ''__proto__''"
    and "\<forall>q\<in>set ys. \<forall>g. \<not> contributes q k g"
  shows "js_get (js_get doc (js ''properties'')) k = f"
proof -
  obtain res where res: "for_of add_prop (xs @ p # ys) [] = Inr res"
      "js_get doc (js ''properties'') = JObj res"
    using descToSchema_properties[OF assms(1,2)] by blast
  have "map_of res k = Some f"
    using res(1) assms(3-5) by (rule for_of_add_prop_last_wins)
  then show ?thesis by (simp add: res(2))
qed

lemma assembler_only_fragments:
  assumes "descToSchema desc ver = Inr doc"
    and "js_get desc (js ''properties'') = JArr ps"
    and "js_get doc (js ''properties'') = JObj res" "map_of res k = Some f"
  shows "\<exists>p\<in>set ps. contributes p k f"
proof -
  obtain res' where res: "for_of add_prop ps [] = Inr res'"
      "js_get doc (js ''properties'') = JObj res'"
    using descToSchema_properties[OF assms(1,2)] by blast
  then have "res' = res" using assms(3) by simp
  then show ?thesis using for_of_add_prop_source[OF res(1), of k f] assms(4) by simp
qed

text \<open>An example with a skipped entry, a nameless definition and a name that occurs twice.\<close>

lemma duplicate_names_example:
  "descToSchema
     (JObj [(js ''name'', jstr ''n''),
            (js ''properties'',
             JArr [JObj [(js ''name'', jstr ''a''), (js ''type'', jstr ''string'')],
                   JUndef,
                   JObj [(js ''name'', jstr ''b''), (js ''type'', jstr ''boolean'')],
                   JObj [(js ''type'', jstr ''number'')],
                   JObj [(js ''name'', jstr ''a''), (js ''type'', jstr ''number'')]])])
     (JNum 2)
   = Inr (JObj [(js ''$schema'', jstr ''http://json-schema.org/draft-07/schema#''),
                (js ''title'', jstr ''n''),
                (js ''description'', jstr []),
                (js ''x-n8n-node-type'', jstr ''n''),
                (js ''x-n8n-version'', JNum 2),
                (js ''x-n8n-group'', JArr []),
                (js ''type'', jstr ''object''),
                (js ''properties'',
                 JObj [(js ''a'', JObj [(js ''type'', jstr ''number'')]),
                       (js ''b'', JObj [(js ''type'', jstr ''boolean'')])])])"
  by (simp add: descToSchema_def schema_fields_def add_prop_def js_set_at_def propToSchema.simps common_fields_def case_string_def
      case_number_def js_or_def js_set_def)

text \<open>
  C4 asks that every successful fragment is inserted into \<^verbatim>\<open>properties\<close> under the name of
  its property. For the description \<^verbatim>\<open>{name:"n", properties:[{name:"__proto__",
  type:"string"}]}\<close> the property converts to the fragment \<^verbatim>\<open>{type:"string"}\<close>, and the
  assignment of line 215 stores nothing: \<^verbatim>\<open>properties\<close> stays empty.
\<close>

theorem proto_property_dropped:
  "descToSchema
     (JObj [(js ''name'', jstr ''n''),
            (js ''properties'',
             JArr [JObj [(js ''name'', jstr ''__proto__''), (js ''type'', jstr ''string'')]])])
     JUndef
   = Inr (JObj [(js ''$schema'', jstr ''http://json-schema.org/draft-07/schema#''),
                (js ''title'', jstr ''n''),
                (js ''description'', jstr []),
                (js ''x-n8n-node-type'', jstr ''n''),
                (js ''x-n8n-version'', JNum 1),
                (js ''x-n8n-group'', JArr []),
                (js ''type'', jstr ''object''),
                (js ''properties'', JObj [])])
   \<and> propToSchema (JObj [(js ''name'', jstr ''__proto__''), (js ''type'', jstr ''string'')])
     = Inr (JObj [(js ''type'', jstr ''string'')])"
  by (simp add: descToSchema_def schema_fields_def add_prop_def js_set_at_def propToSchema.simps common_fields_def case_string_def
      js_or_def js_set_def)

section \<open>One type keyword, or the disjunction of the json arm\<close>

lemma json_example:
  "propToSchema (JObj [(js ''name'', jstr ''body''), (js ''type'', jstr ''json''), (js ''default'', jstr ''{}'')])
   = Inr (JObj [(js ''default'', jstr ''{}''), (js ''oneOf'', one_of_json)])"
  by (simp add: propToSchema.simps common_fields_def case_json_def one_of_json_def js_set_def)

text \<open>
  C6. Every fragment the converter yields has each keyword once, and either a \<^verbatim>\<open>type\<close>
  keyword whose value is one primitive type of JSON Schema and no \<^verbatim>\<open>oneOf\<close>, or, exactly
  when the source type is \<^verbatim>\<open>json\<close>, the \<^verbatim>\<open>oneOf\<close> of a string, an object and an array
  branch and no \<^verbatim>\<open>type\<close> of its own.
\<close>

theorem type_or_oneOf:
  assumes "propToSchema p = Inr (JObj kvs)"
  shows "distinct (map fst kvs)
       \<and> (if js_get p (js ''type'') = jstr ''json''
          then map_of kvs (js ''oneOf'') = Some one_of_json \<and> map_of kvs (js ''type'') = None
          else map_of kvs (js ''oneOf'') = None
               \<and> map_of kvs (js ''type'') \<in> set (map (Some \<circ> jstr) primitive_types))"
proof (cases "js_get p (js ''type'') = jstr ''json''")
  case True
  then show ?thesis
    using json_keywords[OF untyped_common[of p]] propToSchema_json[OF assms True] by simp
next
  case False
  then show ?thesis using propToSchema_typed[OF assms False] by (simp add: typed_def)
qed

theorem type_or_oneOf_witness:
  "propToSchema (JObj [(js ''name'', jstr ''body''), (js ''type'', jstr ''json''), (js ''default'', jstr ''{}'')])
     = Inr (JObj [(js ''default'', jstr ''{}''), (js ''oneOf'', one_of_json)])
   \<and> distinct (map fst [(js ''default'', jstr ''{}''), (js ''oneOf'', one_of_json)])
   \<and> map_of [(js ''default'', jstr ''{}''), (js ''oneOf'', one_of_json)] (js ''oneOf'') = Some one_of_json
   \<and> map_of [(js ''default'', jstr ''{}''), (js ''oneOf'', one_of_json)] (js ''type'') = None"
  using type_or_oneOf[OF json_example] json_example by simp

section \<open>Unrecognized tags\<close>

text \<open>
  C7. For every property definition with a non-empty \<^verbatim>\<open>name\<close> whose \<^verbatim>\<open>type\<close> tag is outside
  the recognized set, conversion does not fail: the result is a fragment with
  \<^verbatim>\<open>type: 'string'\<close> that carries the original tag, unchanged, under \<^verbatim>\<open>x-n8n-type\<close>.
\<close>

theorem unknown_tag_degrades:
  assumes "truthy (js_get p (js ''name''))"
    and "js_get p (js ''type'') \<notin> set (map jstr recognized_types)"
  shows "\<exists>kvs. propToSchema p = Inr (JObj kvs)
           \<and> map_of kvs (js ''type'') = Some (jstr ''string'')
           \<and> map_of kvs (js ''x-n8n-type'') = Some (js_get p (js ''type''))"
  unfolding propToSchema_default[OF assms]
  by (simp add: case_default_def map_of_js_set)

theorem unknown_tag_degrades_witness:
  "truthy (js_get (JObj [(js ''name'', jstr ''import''), (js ''type'', jstr ''curlImport'')]) (js ''name''))
   \<and> js_get (JObj [(js ''name'', jstr ''import''), (js ''type'', jstr ''curlImport'')]) (js ''type'')
       \<notin> set (map jstr recognized_types)
   \<and> (\<exists>kvs. propToSchema (JObj [(js ''name'', jstr ''import''), (js ''type'', jstr ''curlImport'')])
              = Inr (JObj kvs)
          \<and> map_of kvs (js ''type'') = Some (jstr ''string'')
          \<and> map_of kvs (js ''x-n8n-type'') = Some (jstr ''curlImport''))"
  using unknown_tag_degrades[of "JObj [(js ''name'', jstr ''import''), (js ''type'', jstr ''curlImport'')]"]
  by (simp add: recognized_types_def)

section \<open>The resourceLocator arm\<close>

text \<open>
  C8 as stated fails when modes are declared as an empty list: for
  \<^verbatim>\<open>{name:"doc", type:"resourceLocator", modes:[]}\<close> the test of line 117 sees an array, so
  the \<^verbatim>\<open>mode\<close> enumeration is empty, not \<^verbatim>\<open>['id','url','list']\<close>, and \<^verbatim>\<open>x-modes\<close> is the empty
  list.
\<close>

theorem empty_modes_enumeration:
  "propToSchema (JObj [(js ''name'', jstr ''doc''), (js ''type'', jstr ''resourceLocator''),
                       (js ''modes'', JArr [])])
   = Inr (JObj [(js ''type'', jstr ''object''),
                (js ''properties'',
                 JObj [(js ''__rl'', JObj [(js ''type'', jstr ''boolean''), (js ''const'', JBool True)]),
                       (js ''mode'', JObj [(js ''type'', jstr ''string''), (js ''enum'', JArr [])]),
                       (js ''value'', JObj [(js ''type'', jstr ''string'')])]),
                (js ''required'', JArr [jstr ''mode'', jstr ''value'']),
                (js ''x-modes'', JArr [])])"
  by (simp add: propToSchema.simps common_fields_def case_resourceLocator_def js_set_def)

text \<open>
  C8, amended. For every property definition with type \<^verbatim>\<open>resourceLocator\<close>, the fragment is
  an object schema whose \<^verbatim>\<open>required\<close> list is \<^verbatim>\<open>['mode','value']\<close> and whose properties are
  the constant boolean \<^verbatim>\<open>__rl\<close>, the string \<^verbatim>\<open>mode\<close> and the string \<^verbatim>\<open>value\<close>. When \<^verbatim>\<open>modes\<close>
  is an array, the \<^verbatim>\<open>mode\<close> enumeration is the non-empty names of its entries, in order
  (none for an empty array), and \<^verbatim>\<open>x-modes\<close> keeps the name, displayName and type of every
  entry; when \<^verbatim>\<open>modes\<close> is not an array, the enumeration is \<^verbatim>\<open>['id','url','list']\<close> and there
  is no \<^verbatim>\<open>x-modes\<close>. The fragment exists unless an entry of \<^verbatim>\<open>modes\<close> is \<^verbatim>\<open>undefined\<close> or
  \<^verbatim>\<open>null\<close>, where reading its name throws.
\<close>

theorem resourceLocator_fragment:
  "truthy (js_get p (js ''name'')) \<and> js_get p (js ''type'') = jstr ''resourceLocator'' \<longrightarrow>
     (case js_get p (js ''modes'') of
        JArr ms \<Rightarrow>
          if list_all present ms
          then \<exists>kvs. propToSchema p = Inr (JObj kvs)
                 \<and> map_of kvs (js ''type'') = Some (jstr ''object'')
                 \<and> map_of kvs (js ''required'') = Some (JArr [jstr ''mode'', jstr ''value''])
                 \<and> map_of kvs (js ''properties'') = Some (locator_properties (mode_names ms))
                 \<and> map_of kvs (js ''x-modes'') = Some (JArr (map mode_metadata ms))
          else propToSchema p = Inl TypeError
      | _ \<Rightarrow>
          \<exists>kvs. propToSchema p = Inr (JObj kvs)
            \<and> map_of kvs (js ''type'') = Some (jstr ''object'')
            \<and> map_of kvs (js ''required'') = Some (JArr [jstr ''mode'', jstr ''value''])
            \<and> map_of kvs (js ''properties'')
                = Some (locator_properties [jstr ''id'', jstr ''url'', jstr ''list''])
            \<and> map_of kvs (js ''x-modes'') = None)"
proof
  assume a: "truthy (js_get p (js ''name'')) \<and> js_get p (js ''type'') = jstr ''resourceLocator''"
  then have 1: "propToSchema p = map_sum id JObj (case_resourceLocator p (common_fields p))"
    by (simp add: propToSchema_resourceLocator)
  show "case js_get p (js ''modes'') of
        JArr ms \<Rightarrow>
          if list_all present ms
          then \<exists>kvs. propToSchema p = Inr (JObj kvs)
                 \<and> map_of kvs (js ''type'') = Some (jstr ''object'')
                 \<and> map_of kvs (js ''required'') = Some (JArr [jstr ''mode'', jstr ''value''])
                 \<and> map_of kvs (js ''properties'') = Some (locator_properties (mode_names ms))
                 \<and> map_of kvs (js ''x-modes'') = Some (JArr (map mode_metadata ms))
          else propToSchema p = Inl TypeError
      | _ \<Rightarrow>
          \<exists>kvs. propToSchema p = Inr (JObj kvs)
            \<and> map_of kvs (js ''type'') = Some (jstr ''object'')
            \<and> map_of kvs (js ''required'') = Some (JArr [jstr ''mode'', jstr ''value''])
            \<and> map_of kvs (js ''properties'')
                = Some (locator_properties [jstr ''id'', jstr ''url'', jstr ''list''])
            \<and> map_of kvs (js ''x-modes'') = None"
  proof (cases "js_get p (js ''modes'')")
    case (JArr ms)
    show ?thesis
    proof (cases "list_all present ms")
      case True
      show ?thesis
        using JArr True
        by (simp add: 1 case_resourceLocator_modes[OF JArr True] map_of_js_set common_fields_keys)
    next
      case False
      show ?thesis
        using JArr False by (simp add: 1 case_resourceLocator_throws[OF JArr False])
    qed
  qed (simp_all add: 1 case_resourceLocator_default map_of_js_set common_fields_keys)
qed

theorem resourceLocator_fragment_witness:
  "truthy (js_get (JObj [(js ''name'', jstr ''doc''), (js ''type'', jstr ''resourceLocator''),
            (js ''modes'',
             JArr [JObj [(js ''name'', jstr ''id''), (js ''displayName'', jstr ''By ID''), (js ''type'', jstr ''string'')],
                   JObj [(js ''displayName'', jstr ''From list''), (js ''type'', jstr ''list'')]])]) (js ''name''))
   \<and> js_get (JObj [(js ''name'', jstr ''doc''), (js ''type'', jstr ''resourceLocator''),
            (js ''modes'',
             JArr [JObj [(js ''name'', jstr ''id''), (js ''displayName'', jstr ''By ID''), (js ''type'', jstr ''string'')],
                   JObj [(js ''displayName'', jstr ''From list''), (js ''type'', jstr ''list'')]])]) (js ''type'') = jstr ''resourceLocator''
   \<and> (\<exists>kvs. propToSchema (JObj [(js ''name'', jstr ''doc''), (js ''type'', jstr ''resourceLocator''),
            (js ''modes'',
             JArr [JObj [(js ''name'', jstr ''id''), (js ''displayName'', jstr ''By ID''), (js ''type'', jstr ''string'')],
                   JObj [(js ''displayName'', jstr ''From list''), (js ''type'', jstr ''list'')]])]) = Inr (JObj kvs)
          \<and> map_of kvs (js ''type'') = Some (jstr ''object'')
          \<and> map_of kvs (js ''required'') = Some (JArr [jstr ''mode'', jstr ''value''])
          \<and> map_of kvs (js ''properties'') = Some (locator_properties [jstr ''id''])
          \<and> map_of kvs (js ''x-modes'')
              = Some (JArr [JObj [(js ''name'', jstr ''id''), (js ''displayName'', jstr ''By ID''),
                                  (js ''type'', jstr ''string'')],
                            JObj [(js ''name'', JUndef), (js ''displayName'', jstr ''From list''),
                                  (js ''type'', jstr ''list'')]]))"
  using resourceLocator_fragment[of "JObj [(js ''name'', jstr ''doc''), (js ''type'', jstr ''resourceLocator''),
            (js ''modes'',
             JArr [JObj [(js ''name'', jstr ''id''), (js ''displayName'', jstr ''By ID''), (js ''type'', jstr ''string'')],
                   JObj [(js ''displayName'', jstr ''From list''), (js ''type'', jstr ''list'')]])]"]
  by (simp add: mode_names_def mode_metadata_def)

section \<open>The properties key of collection and fixedCollection\<close>

lemma nested_groups_example:
  "propToSchema
     (JObj [(js ''name'', jstr ''rules''), (js ''type'', jstr ''fixedCollection''),
            (js ''options'',
             JArr [JObj [(js ''name'', jstr ''rule''),
                         (js ''values'', JArr [JObj [(js ''name'', jstr ''field''),
                                                     (js ''type'', jstr ''string'')]])]])])
   = Inr (JObj [(js ''type'', jstr ''object''),
                (js ''properties'',
                 JObj [(js ''rule'',
                        JObj [(js ''type'', jstr ''object''),
                              (js ''properties'',
                               JObj [(js ''field'', JObj [(js ''type'', jstr ''string'')])])])])])"
  by (simp add: propToSchema.simps common_fields_def case_string_def add_group_def add_sub_def
      js_set_at_def js_set_def)

text \<open>
  C10. For every property definition with type \<^verbatim>\<open>collection\<close> whose \<^verbatim>\<open>options\<close> is not an
  array, the fragment is an object schema with no \<^verbatim>\<open>properties\<close> key. For every definition
  with type \<^verbatim>\<open>fixedCollection\<close>, the fragment (there is one unless a conversion inside
  throws) has a \<^verbatim>\<open>properties\<close> object, and the fragment exists with an empty \<^verbatim>\<open>properties\<close>
  object when \<^verbatim>\<open>options\<close> is not an array or holds no named group.
\<close>

theorem properties_key_of_collections:
  "(truthy (js_get p (js ''name'')) \<and> js_get p (js ''type'') = jstr ''collection''
      \<and> \<not> is_array (js_get p (js ''options''))
    \<longrightarrow> (\<exists>kvs. propToSchema p = Inr (JObj kvs)
          \<and> map_of kvs (js ''type'') = Some (jstr ''object'')
          \<and> map_of kvs (js ''properties'') = None))
   \<and> (truthy (js_get p (js ''name'')) \<and> js_get p (js ''type'') = jstr ''fixedCollection''
      \<longrightarrow> propToSchema p = Inl TypeError
          \<or> (\<exists>kvs ps. propToSchema p = Inr (JObj kvs)
                \<and> map_of kvs (js ''type'') = Some (jstr ''object'')
                \<and> map_of kvs (js ''properties'') = Some (JObj ps)))
   \<and> (truthy (js_get p (js ''name'')) \<and> js_get p (js ''type'') = jstr ''fixedCollection''
        \<and> (case js_get p (js ''options'') of JArr grps \<Rightarrow> \<not> list_ex named grps | _ \<Rightarrow> True)
      \<longrightarrow> (\<exists>kvs. propToSchema p = Inr (JObj kvs)
                \<and> map_of kvs (js ''type'') = Some (jstr ''object'')
                \<and> map_of kvs (js ''properties'') = Some (JObj [])))"
proof (intro conjI impI)
  assume "truthy (js_get p (js ''name'')) \<and> js_get p (js ''type'') = jstr ''collection''
      \<and> \<not> is_array (js_get p (js ''options''))"
  then show "\<exists>kvs. propToSchema p = Inr (JObj kvs)
          \<and> map_of kvs (js ''type'') = Some (jstr ''object'')
          \<and> map_of kvs (js ''properties'') = None"
    by (simp add: propToSchema_collection_flat map_of_js_set common_fields_keys)
next
  assume a: "truthy (js_get p (js ''name'')) \<and> js_get p (js ''type'') = jstr ''fixedCollection''"
  show "propToSchema p = Inl TypeError
          \<or> (\<exists>kvs ps. propToSchema p = Inr (JObj kvs)
                \<and> map_of kvs (js ''type'') = Some (jstr ''object'')
                \<and> map_of kvs (js ''properties'') = Some (JObj ps))"
    using a
    by (auto simp: propToSchema_fixedCollection map_of_js_set common_fields_keys error_is_TypeError
        split: sum.splits jsval.splits)
next
  assume a: "truthy (js_get p (js ''name'')) \<and> js_get p (js ''type'') = jstr ''fixedCollection''
        \<and> (case js_get p (js ''options'') of JArr grps \<Rightarrow> \<not> list_ex named grps | _ \<Rightarrow> True)"
  show "\<exists>kvs. propToSchema p = Inr (JObj kvs)
                \<and> map_of kvs (js ''type'') = Some (jstr ''object'')
                \<and> map_of kvs (js ''properties'') = Some (JObj [])"
  proof (cases "js_get p (js ''options'')")
    case (JArr grps)
    then have "\<not> list_ex named grps" using a by simp
    then have "list_all (\<lambda>g. \<forall>ps. add_group propToSchema multi g ps = Inr ps) grps" for multi
      by (simp add: list_all_iff list_ex_iff add_group_skip)
    then have "for_of (add_group propToSchema multi) grps [] = Inr []" for multi
      by (rule for_of_skip)
    then show ?thesis
      using a JArr by (simp add: propToSchema_fixedCollection map_of_js_set common_fields_keys)
  qed (use a in \<open>simp_all add: propToSchema_fixedCollection map_of_js_set common_fields_keys\<close>)
qed

theorem properties_key_of_collections_witness:
  "truthy (js_get (JObj [(js ''name'', jstr ''extra''), (js ''type'', jstr ''collection'')]) (js ''name''))
   \<and> (\<exists>kvs. propToSchema (JObj [(js ''name'', jstr ''extra''), (js ''type'', jstr ''collection'')]) = Inr (JObj kvs)
          \<and> map_of kvs (js ''type'') = Some (jstr ''object'')
          \<and> map_of kvs (js ''properties'') = None)
   \<and> truthy (js_get (JObj [(js ''name'', jstr ''rules''), (js ''type'', jstr ''fixedCollection''),
            (js ''options'', JArr [JNull, JObj [(js ''displayName'', jstr ''Nameless'')]])]) (js ''name''))
   \<and> (\<exists>kvs. propToSchema (JObj [(js ''name'', jstr ''rules''), (js ''type'', jstr ''fixedCollection''),
            (js ''options'', JArr [JNull, JObj [(js ''displayName'', jstr ''Nameless'')]])]) = Inr (JObj kvs)
          \<and> map_of kvs (js ''type'') = Some (jstr ''object'')
          \<and> map_of kvs (js ''properties'') = Some (JObj []))
   \<and> (\<exists>kvs ps. propToSchema
        (JObj [(js ''name'', jstr ''rules''), (js ''type'', jstr ''fixedCollection''),
            (js ''options'',
             JArr [JObj [(js ''name'', jstr ''rule''),
                         (js ''values'', JArr [JObj [(js ''name'', jstr ''field''),
                                                     (js ''type'', jstr ''string'')]])]])]) = Inr (JObj kvs)
          \<and> map_of kvs (js ''type'') = Some (jstr ''object'')
          \<and> map_of kvs (js ''properties'') = Some (JObj ps))"
  using properties_key_of_collections[of "JObj [(js ''name'', jstr ''rules''), (js ''type'', jstr ''fixedCollection''),
            (js ''options'',
             JArr [JObj [(js ''name'', jstr ''rule''),
                         (js ''values'', JArr [JObj [(js ''name'', jstr ''field''),
                                                     (js ''type'', jstr ''string'')]])]])]"]
    nested_groups_example properties_key_of_collections[of "JObj [(js ''name'', jstr ''extra''), (js ''type'', jstr ''collection'')]"]
    properties_key_of_collections[of "JObj [(js ''name'', jstr ''rules''), (js ''type'', jstr ''fixedCollection''),
            (js ''options'', JArr [JNull, JObj [(js ''displayName'', jstr ''Nameless'')]])]"]
  by (simp add: named_def)

section \<open>The sanitizer: non-empty and idempotent where String converts\<close>

lemma set_squeeze: "set (squeeze P s) \<subseteq> {c \<in> set s. \<not> P c} \<union> {0x5F}"
proof (induction P s rule: squeeze.induct)
  case (1 P)
  then show ?case by simp
next
  case (2 P c cs)
  show ?case
  proof (cases "P c")
    case True
    have "set (squeeze P (dropWhile P cs)) \<subseteq> {c \<in> set (dropWhile P cs). \<not> P c} \<union> {0x5F}"
      using 2(1)[OF True] .
    moreover have "set (dropWhile P cs) \<subseteq> set cs" by (auto dest: set_dropWhileD)
    ultimately show ?thesis using True by auto
  next
    case False
    then show ?thesis using 2(2)[OF False] by auto
  qed
qed

lemma squeeze_id: "\<forall>c \<in> set s. \<not> P c \<Longrightarrow> squeeze P s = s"
  by (induction s) auto

lemma set_strip_ends: "set (strip_ends P s) \<subseteq> set s"
  unfolding strip_ends_def by (auto dest!: set_dropWhileD)

lemma strip_ends_id: "\<forall>c \<in> set s. \<not> P c \<Longrightarrow> strip_ends P s = s"
proof -
  assume a: "\<forall>c \<in> set s. \<not> P c"
  then have "dropWhile P s = s" by (cases s) auto
  moreover have "dropWhile P (rev s) = rev s" using a by (cases "rev s") (auto simp: in_set_conv_decomp dest: arg_cong[where f=set])
  ultimately show ?thesis by (simp add: strip_ends_def)
qed

lemma tidy_squeeze_fix: "tidy P s \<Longrightarrow> squeeze P s = s"
  by (induction P s rule: tidy.induct) auto

lemma squeeze_Cons_nonclass: "\<not> P e \<Longrightarrow> squeeze P (e # es) = e # squeeze P es"
  by simp

lemma tidy_squeeze: "tidy P (squeeze P s)"
proof (induction P s rule: squeeze.induct)
  case (1 P)
  then show ?case by simp
next
  case (2 P c cs)
  show ?case
  proof (cases "P c")
    case True
    note ih = 2(1)[OF True]
    show ?thesis
    proof (cases "dropWhile P cs")
      case Nil
      have "squeeze P (c # cs) = 0x5F # squeeze P (dropWhile P cs)" using True by simp
      then have "squeeze P (c # cs) = [0x5F]" by (simp only: Nil squeeze.simps)
      then show ?thesis by simp
    next
      case (Cons e es)
      then have "\<not> P e" using hd_dropWhile[of P cs] by simp
      then show ?thesis using True Cons ih by simp
    qed
  next
    case False
    note ih = 2(2)[OF False]
    show ?thesis
    proof (cases "squeeze P cs")
      case Nil
      then show ?thesis using False by simp
    next
      case (Cons e es)
      then show ?thesis using False ih by simp
    qed
  qed
qed

lemma tidy_append: "tidy P (xs @ ys) \<Longrightarrow> tidy P xs \<and> tidy P ys"
proof (induction P xs rule: tidy.induct)
  case (1 P)
  then show ?case by simp
next
  case (2 P c)
  then show ?case by (cases ys) auto
next
  case (3 P c d cs)
  then show ?case by auto
qed

lemma tidy_strip_ends: "tidy P s \<Longrightarrow> tidy P (strip_ends P s)"
proof -
  assume a: "tidy P s"
  have "tidy P (takeWhile P s @ dropWhile P s)" using a by simp
  then have b: "tidy P (dropWhile P s)" by (blast dest: tidy_append)
  let ?t = "dropWhile P s"
  have "?t = rev (rev ?t)" by simp
  also have "rev ?t = takeWhile P (rev ?t) @ dropWhile P (rev ?t)" by simp
  finally have "?t = rev (dropWhile P (rev ?t)) @ rev (takeWhile P (rev ?t))"
    by (metis rev_append rev_rev_ident)
  then have "tidy P (rev (dropWhile P (rev ?t)) @ rev (takeWhile P (rev ?t)))" using b by simp
  then show ?thesis unfolding strip_ends_def by (blast dest: tidy_append)
qed

lemma dropWhile_fix: "s = [] \<or> \<not> P (hd s) \<Longrightarrow> dropWhile P s = s"
  by (cases s) auto

lemma strip_ends_ends:
  "strip_ends P s = [] \<or> (\<not> P (hd (strip_ends P s)) \<and> \<not> P (last (strip_ends P s)))"
proof (cases "strip_ends P s = []")
  case True
  then show ?thesis by simp
next
  case False
  let ?t = "dropWhile P s"
  let ?z = "dropWhile P (rev ?t)"
  have z: "?z \<noteq> []" using False by (simp add: strip_ends_def)
  have t: "?t \<noteq> []"
  proof
    assume "?t = []"
    then have "?z = []" by (simp only: rev.simps dropWhile.simps)
    with z show False by simp
  qed
  have l: "\<not> P (hd ?z)" using z by (rule hd_dropWhile)
  have "hd (rev ?z) = hd ?t"
  proof -
    have "rev ?t = takeWhile P (rev ?t) @ ?z" by simp
    then have "?t = rev ?z @ rev (takeWhile P (rev ?t))" by (metis rev_append rev_rev_ident)
    then have "hd ?t = hd (rev ?z @ rev (takeWhile P (rev ?t)))" by simp
    also have "\<dots> = hd (rev ?z)" using z by simp
    finally show ?thesis by simp
  qed
  moreover have "\<not> P (hd ?t)" using t by (rule hd_dropWhile)
  moreover have "last (rev ?z) = hd ?z" using z by (simp add: last_rev)
  ultimately show ?thesis using l by (simp add: strip_ends_def)
qed

lemma strip_ends_fix: "s = [] \<or> (\<not> P (hd s) \<and> \<not> P (last s)) \<Longrightarrow> strip_ends P s = s"
proof (cases "s = []")
  case True
  then show ?thesis by (simp add: strip_ends_def)
next
  case False
  assume "s = [] \<or> (\<not> P (hd s) \<and> \<not> P (last s))"
  then have h: "\<not> P (hd s)" "\<not> P (last s)" using False by auto
  have "dropWhile P s = s" using h(1) by (simp add: dropWhile_fix)
  moreover have "dropWhile P (rev s) = rev s"
    using h(2) False by (intro dropWhile_fix) (simp add: hd_rev)
  ultimately show ?thesis by (simp add: strip_ends_def)
qed

lemma safeName_sanitized:
  assumes "sanitized s" "s \<noteq> []"
  shows "safeName (JStr s) = Inr s"
proof -
  have a: "\<forall>c\<in>set s. \<not> forbidden c" and b: "\<forall>c\<in>set s. \<not> whitespace c"
    using assms(1) by (auto simp: sanitized_def list_all_iff)
  have 1: "filter (\<lambda>c. \<not> forbidden c) s = s" using a by simp
  have 2: "squeeze whitespace s = s" using b by (rule squeeze_id)
  have 3: "squeeze underscore s = s" using assms(1) by (simp add: sanitized_def tidy_squeeze_fix)
  have 4: "strip_ends underscore s = s" using assms(1) by (simp add: sanitized_def strip_ends_fix)
  have 5: "strip_ends whitespace s = s" using b by (rule strip_ends_id)
  show ?thesis using assms(2) by (simp add: safeName_def js_or_def 1 2 3 4 5)
qed

lemma not_ws_underscore: "\<not> whitespace 0x5F" "\<not> forbidden 0x5F"
  by (simp_all add: whitespace_def forbidden_def)

lemma squeeze_keeps: "list_all Q s \<Longrightarrow> Q 0x5F \<Longrightarrow> list_all Q (squeeze P s)"
  using set_squeeze[of P s] by (auto simp: list_all_iff)

lemma squeeze_removes:
  "list_all Q s \<Longrightarrow> Q 0x5F \<Longrightarrow> \<not> P 0x5F \<Longrightarrow> list_all (\<lambda>c. Q c \<and> \<not> P c) (squeeze P s)"
  using set_squeeze[of P s] by (auto simp: list_all_iff)

lemma strip_ends_keeps: "list_all Q s \<Longrightarrow> list_all Q (strip_ends P s)"
  using set_strip_ends[of P s] by (auto simp: list_all_iff)

lemma list_all_conjD: "list_all (\<lambda>c. A c \<and> B c) s \<Longrightarrow> list_all A s \<and> list_all B s"
  by (induction s) auto

lemma sanitized_steps:
  "sanitized (strip_ends whitespace (strip_ends underscore (squeeze underscore
      (squeeze whitespace (filter (\<lambda>c. \<not> forbidden c) t)))))"
proof -
  let ?a = "filter (\<lambda>c. \<not> forbidden c) t"
  let ?b = "squeeze whitespace ?a"
  let ?c = "squeeze underscore ?b"
  let ?d = "strip_ends underscore ?c"
  let ?Q = "\<lambda>c. \<not> forbidden c \<and> \<not> whitespace c"
  have q: "?Q 0x5F" using not_ws_underscore by simp
  have a: "list_all (\<lambda>c. \<not> forbidden c) ?a" by (induction t) auto
  have b: "list_all ?Q ?b"
    by (rule squeeze_removes[OF a]) (simp_all add: not_ws_underscore)
  have c: "list_all ?Q ?c" by (rule squeeze_keeps[OF b q])
  have d: "list_all ?Q ?d" by (rule strip_ends_keeps[OF c])
  have "list_all (\<lambda>c. \<not> whitespace c) ?d" using list_all_conjD[OF d] by (rule conjunct2)
  then have "\<forall>c\<in>set ?d. \<not> whitespace c" unfolding list_all_iff .
  then have e: "strip_ends whitespace ?d = ?d" by (rule strip_ends_id)
  have f: "tidy underscore ?d" by (rule tidy_strip_ends) (rule tidy_squeeze)
  have g: "?d = [] \<or> (\<not> underscore (hd ?d) \<and> \<not> underscore (last ?d))"
    by (rule strip_ends_ends)
  show ?thesis unfolding e sanitized_def using d f g by (intro conjI)
qed

lemma sanitized_unknown: "sanitized (js ''unknown'')"
  by (simp add: sanitized_def js_def forbidden_def whitespace_def underscore_def)




section \<open>The number scenario\<close>

text \<open>
  C9. The definition \<^verbatim>\<open>{name:"timeout", type:"number", typeOptions:{minValue:0, maxValue:300}}\<close>
  converts to the fragment \<^verbatim>\<open>{type:"number", minimum:0, maximum:300}\<close>: these three keys
  with these values, and no other key.
\<close>

theorem number_scenario:
  "propToSchema
     (JObj [(js ''name'', jstr ''timeout''), (js ''type'', jstr ''number''),
            (js ''typeOptions'', JObj [(js ''minValue'', JNum 0), (js ''maxValue'', JNum 300)])])
   = Inr (JObj [(js ''type'', jstr ''number''), (js ''minimum'', JNum 0), (js ''maximum'', JNum 300)])"
  by (simp add: propToSchema.simps common_fields_def case_number_def js_set_def)

end
